theory Spec2Isabelle
  imports
    Main
    "HOL-Library.AList"
    "HOL-Library.Char_ord"
    "HOL-Library.List_Lexorder"
    "HOL-Library.Product_Lexorder"
    "HOL-Library.Multiset"
    "HOL-Library.Sublist"
begin

section \<open>The AMCache parser of plaso (plaso/parsers/amcache.py)\<close>

text \<open>
  A shallow embedding of \<^verbatim>\<open>AMCacheParser\<close>. Python text is a \<open>string\<close> whose
  characters are the code points below 256, Python integers are \<open>int\<close>, a dict is an
  association list in insertion order, and the parser mediator is a record of the events
  and the extraction warnings produced so far, passed through every method. A method that returns nothing yields
  \<open>None\<close> when it returns normally and \<open>Some e\<close> when the exception \<open>e\<close> leaves it; the
  mediator it yields holds what had been produced up to that point.
\<close>

subsection \<open>Python values, exceptions and built-ins\<close>

text \<open>
  The faults that a read of the registry library raises. Modelled from the spec: pyregf is
  not part of the repository; section 4.1 names an I/O fault and an integer overflow, the
  two classes that \<^verbatim>\<open>_GetValueDataAsObject\<close> catches. The string is the message of the
  exception.
\<close>

datatype regf_fault = IOError string | OverflowError string

datatype py_exc = AttributeError | TypeError | ValueError | Raised regf_fault

datatype py_obj =
    PyNone
  | PyStr string
  | PyInt int
  | PyList "string list"
  | PyBytes string

fun str_fault :: "regf_fault \<Rightarrow> string" where
  "str_fault (IOError m) = m"
| "str_fault (OverflowError m) = m"

definition backslash :: char where
  "backslash = CHR 0x5C"

definition startswith :: "string \<Rightarrow> string \<Rightarrow> bool" where
  "startswith s p = (take (length p) s = p)"

text \<open>\<^verbatim>\<open>sub in s\<close> on text.\<close>

fun py_contains :: "string \<Rightarrow> string \<Rightarrow> bool" where
  "py_contains [] sub = (sub = [])"
| "py_contains (c # cs) sub = (if startswith (c # cs) sub then True else py_contains cs sub)"

text \<open>
  \<^verbatim>\<open>s.split(sep)\<close>: the text is cut at every occurrence of the separator, found from left to
  right without overlap. An empty separator raises ValueError.
\<close>

fun split_from :: "string \<Rightarrow> string \<Rightarrow> string \<Rightarrow> string list" where
  "split_from sep cur [] = [cur]"
| "split_from sep cur (c # cs) =
     (if startswith (c # cs) sep
      then cur # split_from sep [] (drop (length sep - 1) cs)
      else split_from sep (cur @ [c]) cs)"

definition py_split :: "string \<Rightarrow> string \<Rightarrow> py_exc + string list" where
  "py_split s sep = (if sep = [] then Inl ValueError else Inr (split_from sep [] s))"

fun py_join :: "string \<Rightarrow> string list \<Rightarrow> string" where
  "py_join sep [] = []"
| "py_join sep [x] = x"
| "py_join sep (x # y # ys) = x @ sep @ py_join sep (y # ys)"

text \<open>
  \<^verbatim>\<open>s.lower()\<close>, character by character: the letters A to Z and the capital letters of
  Latin-1 (code points 192 to 222, without the multiplication sign 215) become the small
  letters 32 code points above them.
\<close>

definition upper_letters :: string where
  "upper_letters =
     ''ABCDEFGHIJKLMNOPQRSTUVWXYZ'' @
     [
        CHR 0xC0, CHR 0xC1, CHR 0xC2, CHR 0xC3, CHR 0xC4, CHR 0xC5, CHR 0xC6, CHR 0xC7,
        CHR 0xC8, CHR 0xC9, CHR 0xCA, CHR 0xCB, CHR 0xCC, CHR 0xCD, CHR 0xCE, CHR 0xCF,
        CHR 0xD0, CHR 0xD1, CHR 0xD2, CHR 0xD3, CHR 0xD4, CHR 0xD5, CHR 0xD6, CHR 0xD8,
        CHR 0xD9, CHR 0xDA, CHR 0xDB, CHR 0xDC, CHR 0xDD, CHR 0xDE]"

definition lower_letters :: string where
  "lower_letters =
     ''abcdefghijklmnopqrstuvwxyz'' @
     [
        CHR 0xE0, CHR 0xE1, CHR 0xE2, CHR 0xE3, CHR 0xE4, CHR 0xE5, CHR 0xE6, CHR 0xE7,
        CHR 0xE8, CHR 0xE9, CHR 0xEA, CHR 0xEB, CHR 0xEC, CHR 0xED, CHR 0xEE, CHR 0xEF,
        CHR 0xF0, CHR 0xF1, CHR 0xF2, CHR 0xF3, CHR 0xF4, CHR 0xF5, CHR 0xF6, CHR 0xF8,
        CHR 0xF9, CHR 0xFA, CHR 0xFB, CHR 0xFC, CHR 0xFD, CHR 0xFE]"

definition py_lower_char :: "char \<Rightarrow> char" where
  "py_lower_char c =
     (case map_of (zip upper_letters lower_letters) c of
        Some l \<Rightarrow> l
      | None \<Rightarrow> c)"

definition py_lower :: "string \<Rightarrow> string" where
  "py_lower s = map py_lower_char s"

text \<open>Decimal text of an integer: \<^verbatim>\<open>'{0:d}'.format(n)\<close> and \<^verbatim>\<open>str(n)\<close>.\<close>

definition digit_char :: "nat \<Rightarrow> char" where
  "digit_char d = ''0123456789'' ! (d mod 10)"

fun dec_digits :: "nat \<Rightarrow> string" where
  "dec_digits n = (if n < 10 then [digit_char n] else dec_digits (n div 10) @ [digit_char n])"

definition format_d :: "int \<Rightarrow> string" where
  "format_d i = (if i < 0 then CHR ''-'' # dec_digits (nat (- i)) else dec_digits (nat i))"

text \<open>
  \<^verbatim>\<open>int(s, 16)\<close> as CPython 3 reads it: white space around the number, an optional sign,
  an optional \<^verbatim>\<open>0x\<close> prefix, then hexadecimal digits that single underscores may
  separate. Anything else raises ValueError. The white space is the ASCII white space
  (code points 9 to 13 and 32) and, of the characters above 127, the two that Unicode
  counts as white space below 256: next line (133) and no-break space (160).
\<close>

definition py_isspace :: "char \<Rightarrow> bool" where
  "py_isspace c = (of_char c \<in> {9, 10, 11, 12, 13, 32, 133, 160 :: nat})"

definition hex_digit_value :: "char \<Rightarrow> nat option" where
  "hex_digit_value c =
     map_of (zip ''0123456789abcdefABCDEF''
       [0, 1, 2, 3, 4, 5, 6, 7, 8, 9, 10, 11, 12, 13, 14, 15, 10, 11, 12, 13, 14, 15]) c"

definition strip_sign :: "string \<Rightarrow> bool \<times> string" where
  "strip_sign s =
     (case s of
        [] \<Rightarrow> (False, [])
      | c # r \<Rightarrow>
          if c = CHR ''+'' then (False, r)
          else if c = CHR ''-'' then (True, r)
          else (False, s))"

definition strip_hex_prefix :: "string \<Rightarrow> string" where
  "strip_hex_prefix s =
     (if startswith s ''0x'' \<or> startswith s ''0X''
      then (case drop 2 s of c # r \<Rightarrow> if c = CHR ''_'' then r else c # r | [] \<Rightarrow> [])
      else s)"

text \<open>
  The digits and underscores at the front of the text: \<open>scan_digits prev acc s\<close> yields
  \<open>None\<close> at a doubled underscore and otherwise the digit values read, the last
  character read and the rest of the text.
\<close>

fun scan_digits :: "char option \<Rightarrow> nat list \<Rightarrow> string \<Rightarrow> (nat list \<times> char option \<times> string) option" where
  "scan_digits prev acc [] = Some (acc, prev, [])"
| "scan_digits prev acc (c # cs) =
     (if c = CHR ''_''
      then (if prev = Some (CHR ''_'') then None else scan_digits (Some c) acc cs)
      else (case hex_digit_value c of
              Some d \<Rightarrow> scan_digits (Some c) (acc @ [d]) cs
            | None \<Rightarrow> Some (acc, prev, c # cs)))"

definition hex_value :: "nat list \<Rightarrow> nat" where
  "hex_value ds = foldl (\<lambda>a d. 16 * a + d) 0 ds"

definition py_int16 :: "string \<Rightarrow> py_exc + int" where
  "py_int16 s =
     (let (neg, s1) = strip_sign (dropWhile py_isspace s);
          s2 = strip_hex_prefix s1
      in if startswith s2 ''_'' then Inl ValueError
         else
           (case scan_digits None [] s2 of
              None \<Rightarrow> Inl ValueError
            | Some (ds, prev, rest) \<Rightarrow>
                if prev = Some (CHR ''_'') \<or> prev = None then Inl ValueError
                else if dropWhile py_isspace rest \<noteq> [] then Inl ValueError
                else Inr (if neg then - int (hex_value ds) else int (hex_value ds))))"

text \<open>\<^verbatim>\<open>str(x)\<close>. The text of a list or of bytes is Python's display of it.\<close>

fun py_repr_str :: "string \<Rightarrow> string" where
  "py_repr_str s = [CHR 0x27] @ s @ [CHR 0x27]"

fun py_str :: "py_obj \<Rightarrow> string" where
  "py_str PyNone = ''None''"
| "py_str (PyStr s) = s"
| "py_str (PyInt i) = format_d i"
| "py_str (PyList l) = ''['' @ py_join '', '' (map py_repr_str l) @ '']''"
| "py_str (PyBytes b) = ''b'' @ py_repr_str b"

text \<open>\<^verbatim>\<open>len(x)\<close>: None and integers have no length.\<close>

fun py_len :: "py_obj \<Rightarrow> py_exc + nat" where
  "py_len PyNone = Inl TypeError"
| "py_len (PyInt i) = Inl TypeError"
| "py_len (PyStr s) = Inr (length s)"
| "py_len (PyList l) = Inr (length l)"
| "py_len (PyBytes b) = Inr (length b)"

text \<open>
  \<^verbatim>\<open>x.startswith(p)\<close> for a text \<open>p\<close>: text answers, bytes refuse a text prefix, and None,
  integers and lists have no such method.
\<close>

fun py_startswith :: "py_obj \<Rightarrow> string \<Rightarrow> py_exc + bool" where
  "py_startswith (PyStr s) p = Inr (startswith s p)"
| "py_startswith (PyBytes b) p = Inl TypeError"
| "py_startswith PyNone p = Inl AttributeError"
| "py_startswith (PyInt i) p = Inl AttributeError"
| "py_startswith (PyList l) p = Inl AttributeError"

text \<open>\<^verbatim>\<open>x[4:]\<close> on a value that has answered \<^verbatim>\<open>startswith\<close>.\<close>

fun py_slice_from :: "nat \<Rightarrow> py_obj \<Rightarrow> py_obj" where
  "py_slice_from n (PyStr s) = PyStr (drop n s)"
| "py_slice_from n (PyBytes b) = PyBytes (drop n b)"
| "py_slice_from n (PyList l) = PyList (drop n l)"
| "py_slice_from n x = x"

text \<open>
  \<^verbatim>\<open>', '.join(x or [])\<close>: a false value (None, zero, an empty text or list) stands for the
  empty list; a text is joined character by character; a number or bytes cannot be joined.
\<close>

fun py_join_or_empty :: "string \<Rightarrow> py_obj \<Rightarrow> py_exc + string" where
  "py_join_or_empty sep PyNone = Inr (py_join sep [])"
| "py_join_or_empty sep (PyList l) = Inr (py_join sep l)"
| "py_join_or_empty sep (PyStr s) = Inr (py_join sep (map (\<lambda>c. [c]) s))"
| "py_join_or_empty sep (PyInt i) = (if i = 0 then Inr (py_join sep []) else Inl TypeError)"
| "py_join_or_empty sep (PyBytes b) = (if b = [] then Inr (py_join sep []) else Inl TypeError)"

subsection \<open>The registry tree handed to the parser\<close>

text \<open>
  Modelled from the spec: the classes \<^verbatim>\<open>pyregf.value\<close>, \<^verbatim>\<open>pyregf.key\<close> and
  \<^verbatim>\<open>pyregf.file\<close> are not part of the repository. Sections 3 and 6 give their interface:
  a value exposes its name (empty for the default value), its type tag and its raw payload
  or null; a key exposes its name, its last written time and its ordered values and sub
  keys. A typed read of a value (\<^verbatim>\<open>get_data_as_string\<close>, \<^verbatim>\<open>get_data_as_integer\<close>,
  \<^verbatim>\<open>get_data_as_multi_string\<close>) either yields the decoded value or raises a fault; the value
  record holds the outcome of each read.
\<close>

record regf_value =
  value_name :: string
  value_type :: nat
  data :: "string option"
  get_data_as_string :: "regf_fault + string"
  get_data_as_integer :: "regf_fault + int"
  get_data_as_multi_string :: "regf_fault + string list"

datatype regf_key =
  Key (key_name: string) (get_last_written_time_as_integer: int)
      (key_values: "regf_value list") (sub_keys: "regf_key list")

text \<open>
  Modelled from the spec: \<^verbatim>\<open>key.get_value_by_name\<close> (section 4.6: lookup by exact value
  name, case-sensitive). It yields the first value of that name, or None.
\<close>

definition get_value_by_name :: "regf_key \<Rightarrow> string \<Rightarrow> regf_value option" where
  "get_value_by_name k n = find (\<lambda>v. value_name v = n) (key_values k)"

text \<open>
  Modelled from the spec: an opened hive file. \<open>open_file_object\<close> is the exception that
  opening raises, if any; \<open>get_key_by_path\<close> is the lookup of a key by its path.
\<close>

record regf_file =
  open_file_object :: "py_exc option"
  get_key_by_path :: "string \<Rightarrow> regf_key option"

text \<open>The type tags of \<^verbatim>\<open>dfwinreg.definitions\<close>, the Windows registry value types.\<close>

definition REG_SZ :: nat where "REG_SZ = 1"
definition REG_EXPAND_SZ :: nat where "REG_EXPAND_SZ = 2"
definition REG_BINARY :: nat where "REG_BINARY = 3"
definition REG_DWORD :: nat where "REG_DWORD = 4"
definition REG_DWORD_BIG_ENDIAN :: nat where "REG_DWORD_BIG_ENDIAN = 5"
definition REG_LINK :: nat where "REG_LINK = 6"
definition REG_MULTI_SZ :: nat where "REG_MULTI_SZ = 7"
definition REG_QWORD :: nat where "REG_QWORD = 11"

subsection \<open>Events, event data and the parser mediator\<close>

datatype date_time = Filetime int | PosixTime int

datatype time_description =
    TIME_DESCRIPTION_CHANGE
  | TIME_DESCRIPTION_CREATION
  | TIME_DESCRIPTION_INSTALLATION
  | TIME_DESCRIPTION_MODIFICATION
  | TIME_DESCRIPTION_WRITTEN

datatype time_event = DateTimeValuesEvent date_time time_description

text \<open>
  An event data object. The two AMCache classes are held as their attribute dictionary,
  which \<^verbatim>\<open>setattr\<close> updates by attribute name; \<^verbatim>\<open>WindowsRegistryEventData\<close> carries the key
  path and the value summary (None when there is none).
\<close>

datatype event_data =
    AMCacheFileEventData (attributes: "(string \<times> py_obj) list")
  | AMCacheProgramEventData (attributes: "(string \<times> py_obj) list")
  | WindowsRegistryEventData (key_path: string) (values_text: "string option")

definition new_AMCacheFileEventData :: event_data where
  "new_AMCacheFileEventData = AMCacheFileEventData
     [(''company_name'', PyNone), (''file_description'', PyNone), (''file_reference'', PyNone),
      (''file_size'', PyNone), (''file_version'', PyNone), (''full_path'', PyNone),
      (''language_code'', PyNone), (''product_name'', PyNone),
      (''program_identifier'', PyNone), (''sha1'', PyNone)]"

definition new_AMCacheProgramEventData :: event_data where
  "new_AMCacheProgramEventData = AMCacheProgramEventData
     [(''entry_type'', PyNone), (''file_paths'', PyNone), (''files'', PyNone),
      (''language_code'', PyNone), (''msi_package_code'', PyNone),
      (''msi_product_code'', PyNone), (''name'', PyNone), (''package_code'', PyNone),
      (''product_code'', PyNone), (''publisher'', PyNone), (''uninstall_key'', PyNone),
      (''version'', PyNone)]"

fun setattr :: "event_data \<Rightarrow> string \<Rightarrow> py_obj \<Rightarrow> event_data" where
  "setattr (AMCacheFileEventData d) a v = AMCacheFileEventData (AList.update a v d)"
| "setattr (AMCacheProgramEventData d) a v = AMCacheProgramEventData (AList.update a v d)"
| "setattr (WindowsRegistryEventData p s) a v = WindowsRegistryEventData p s"

fun getattr :: "event_data \<Rightarrow> string \<Rightarrow> py_obj option" where
  "getattr (AMCacheFileEventData d) a = map_of d a"
| "getattr (AMCacheProgramEventData d) a = map_of d a"
| "getattr (WindowsRegistryEventData p s) a = None"

record mediator =
  events :: "(time_event \<times> event_data) list"
  warnings :: "string list"

definition ProduceEventWithEventData :: "mediator \<Rightarrow> time_event \<Rightarrow> event_data \<Rightarrow> mediator" where
  "ProduceEventWithEventData med ev ed = med\<lparr>events := events med @ [(ev, ed)]\<rparr>"

definition ProduceExtractionWarning :: "mediator \<Rightarrow> string \<Rightarrow> mediator" where
  "ProduceExtractionWarning med msg = med\<lparr>warnings := warnings med @ [msg]\<rparr>"

subsection \<open>The mapping tables\<close>

definition FILE_REFERENCE_KEY_VALUES :: "(string \<times> string) list" where
  "FILE_REFERENCE_KEY_VALUES =
     [(''0'', ''product_name''),
      (''1'', ''company_name''),
      (''3'', ''language_code''),
      (''5'', ''file_version''),
      (''6'', ''file_size''),
      (''c'', ''file_description''),
      (''15'', ''full_path''),
      (''100'', ''program_identifier''),
      (''101'', ''sha1'')]"

definition AMCACHE_COMPILATION_TIME :: string where "AMCACHE_COMPILATION_TIME = ''f''"
definition AMCACHE_FILE_MODIFICATION_TIME :: string where "AMCACHE_FILE_MODIFICATION_TIME = ''11''"
definition AMCACHE_FILE_CREATION_TIME :: string where "AMCACHE_FILE_CREATION_TIME = ''12''"
definition AMCACHE_ENTRY_WRITE_TIME :: string where "AMCACHE_ENTRY_WRITE_TIME = ''17''"
definition AMCACHE_P_INSTALLATION_TIME :: string where "AMCACHE_P_INSTALLATION_TIME = ''a''"

definition PRODUCT_KEY_VALUES :: "(string \<times> string) list" where
  "PRODUCT_KEY_VALUES =
     [(''0'', ''name''),
      (''1'', ''version''),
      (''2'', ''publisher''),
      (''3'', ''language_code''),
      (''6'', ''entry_type''),
      (''7'', ''uninstall_key''),
      (''d'', ''file_paths''),
      (''f'', ''product_code''),
      (''10'', ''package_code''),
      (''11'', ''msi_product_code''),
      (''12'', ''msi_package_code'')]"

subsection \<open>Reading and displaying values\<close>

text \<open>\<^verbatim>\<open>_GetValueDataAsObject\<close>: the value as a Python object, or None with a warning.\<close>

definition GetValueDataAsObject :: "mediator \<Rightarrow> regf_value \<Rightarrow> py_obj \<times> mediator" where
  "GetValueDataAsObject med regf_value =
     (case (if value_type regf_value \<in> {REG_SZ, REG_EXPAND_SZ, REG_LINK}
            then map_sum id PyStr (get_data_as_string regf_value)
            else if value_type regf_value \<in> {REG_DWORD, REG_DWORD_BIG_ENDIAN, REG_QWORD}
            then map_sum id PyInt (get_data_as_integer regf_value)
            else if value_type regf_value = REG_MULTI_SZ
            then map_sum id PyList (get_data_as_multi_string regf_value)
            else Inr (case data regf_value of None \<Rightarrow> PyNone | Some b \<Rightarrow> PyBytes b)) of
        Inl exception \<Rightarrow>
          (PyNone,
           ProduceExtractionWarning med
             (''Unable to read data from value: '' @ value_name regf_value @
              '' with error: '' @ str_fault exception))
      | Inr value_data \<Rightarrow> (value_data, med))"

text \<open>The body of the loop of \<^verbatim>\<open>_GetValuesFromKey\<close> that renders one value.\<close>

definition value_string :: "mediator \<Rightarrow> regf_value \<Rightarrow> (py_exc + string) \<times> mediator" where
  "value_string med regf_value =
     (if data regf_value = None then (Inr ''(empty)'', med)
      else
        (case GetValueDataAsObject med regf_value of
           (value_object, med') \<Rightarrow>
             if value_type regf_value = REG_MULTI_SZ
             then (map_sum id (\<lambda>s. ''['' @ s @ '']'') (py_join_or_empty '', '' value_object), med')
             else if value_type regf_value \<in>
                 {REG_DWORD, REG_DWORD_BIG_ENDIAN, REG_EXPAND_SZ, REG_LINK, REG_QWORD, REG_SZ}
             then (Inr (py_str value_object), med')
             else (map_sum id (\<lambda>n. ''('' @ format_d (int n) @ '' bytes)'') (py_len value_object),
                   med')))"

definition display_name :: "regf_value \<Rightarrow> string" where
  "display_name regf_value =
     (if value_name regf_value = [] then ''(default)'' else value_name regf_value)"

fun GetValuesFromKey_loop ::
  "string list \<Rightarrow> regf_value list \<Rightarrow> (string \<times> string) list \<Rightarrow> mediator
     \<Rightarrow> (py_exc + (string \<times> string) list) \<times> mediator" where
  "GetValuesFromKey_loop names_to_skip [] values_dict med = (Inr values_dict, med)"
| "GetValuesFromKey_loop names_to_skip (regf_value # rest) values_dict med =
     (if py_lower (display_name regf_value) \<in> set names_to_skip
      then GetValuesFromKey_loop names_to_skip rest values_dict med
      else
        (case value_string med regf_value of
           (Inl e, med') \<Rightarrow> (Inl e, med')
         | (Inr s, med') \<Rightarrow>
             GetValuesFromKey_loop names_to_skip rest
               (AList.update (display_name regf_value) s values_dict) med'))"

definition GetValuesFromKey ::
  "mediator \<Rightarrow> regf_key \<Rightarrow> string list option
     \<Rightarrow> (py_exc + (string \<times> string) list) \<times> mediator" where
  "GetValuesFromKey med regf_key names_to_skip =
     GetValuesFromKey_loop
       (map py_lower (case names_to_skip of None \<Rightarrow> [] | Some ns \<Rightarrow> ns))
       (key_values regf_key) [] med"

text \<open>\<^verbatim>\<open>_ProduceDefaultWindowsRegistryEvent\<close>: the generic event of a key.\<close>

definition values_text_of :: "(string \<times> string) list \<Rightarrow> string option" where
  "values_text_of values_dict =
     (let s = py_join '' '' (map (\<lambda>(name, v). name @ '': '' @ v) (sort values_dict))
      in if s = [] then None else Some s)"

definition ProduceDefaultWindowsRegistryEvent ::
  "mediator \<Rightarrow> regf_key \<Rightarrow> string \<Rightarrow> string list option \<Rightarrow> py_exc option \<times> mediator" where
  "ProduceDefaultWindowsRegistryEvent med regf_key path names_to_skip =
     (case GetValuesFromKey med regf_key names_to_skip of
        (Inl e, med') \<Rightarrow> (Some e, med')
      | (Inr values_dict, med') \<Rightarrow>
          (None,
           ProduceEventWithEventData med'
             (DateTimeValuesEvent (Filetime (get_last_written_time_as_integer regf_key))
                TIME_DESCRIPTION_WRITTEN)
             (WindowsRegistryEventData path (values_text_of values_dict))))"

subsection \<open>File reference keys\<close>

text \<open>
  The body of the \<^verbatim>\<open>try\<close> block of \<^verbatim>\<open>_ParseFileReferenceKey\<close>: the file reference that
  the key name encodes. Unpacking the split name into two variables raises ValueError
  unless the split has exactly two parts.
\<close>

definition file_reference_of_name :: "string \<Rightarrow> py_exc + string" where
  "file_reference_of_name name =
     (if py_contains name ''0000''
      then
        (case py_split name ''0000'' of
           Inl e \<Rightarrow> Inl e
         | Inr parts \<Rightarrow>
             (case parts of
                [sequence_number, mft_entry] \<Rightarrow>
                  (case py_int16 mft_entry of
                     Inl e \<Rightarrow> Inl e
                   | Inr m \<Rightarrow>
                       (case py_int16 sequence_number of
                          Inl e \<Rightarrow> Inl e
                        | Inr q \<Rightarrow> Inr (format_d m @ ''-'' @ format_d q)))
              | _ \<Rightarrow> Inl ValueError))
      else
        (case py_int16 name of
           Inl e \<Rightarrow> Inl e
         | Inr file_reference \<Rightarrow> Inr (format_d file_reference)))"

text \<open>The \<^verbatim>\<open>try\<close> block with its handler: ValueError and TypeError are passed over.\<close>

definition ParseFileReferenceKey_reference :: "event_data \<Rightarrow> string \<Rightarrow> py_exc option \<times> event_data" where
  "ParseFileReferenceKey_reference event_data name =
     (case file_reference_of_name name of
        Inr r \<Rightarrow> (None, setattr event_data ''file_reference'' (PyStr r))
      | Inl e \<Rightarrow> if e = ValueError \<or> e = TypeError then (None, event_data) else (Some e, event_data))"

text \<open>The loop of \<^verbatim>\<open>_ParseFileReferenceKey\<close> over the mapping table.\<close>

fun ParseFileReferenceKey_values ::
  "(string \<times> string) list \<Rightarrow> mediator \<Rightarrow> regf_key \<Rightarrow> event_data
     \<Rightarrow> py_exc option \<times> event_data \<times> mediator" where
  "ParseFileReferenceKey_values [] med k event_data = (None, event_data, med)"
| "ParseFileReferenceKey_values ((vname, attribute_name) # rest) med k event_data =
     (case get_value_by_name k vname of
        None \<Rightarrow> ParseFileReferenceKey_values rest med k event_data
      | Some v \<Rightarrow>
          (case GetValueDataAsObject med v of
             (value_data, med') \<Rightarrow>
               (case (if attribute_name = ''sha1'' then py_startswith value_data ''0000''
                      else Inr False) of
                  Inl e \<Rightarrow> (Some e, event_data, med')
                | Inr strip \<Rightarrow>
                    ParseFileReferenceKey_values rest med' k
                      (setattr event_data attribute_name
                         (if strip then py_slice_from 4 value_data else value_data)))))"

text \<open>
  One of the blocks that end \<^verbatim>\<open>_ParseFileReferenceKey\<close> and \<^verbatim>\<open>_ParseProgramKey\<close>: when
  the key has the named value, its integer is read (outside of any \<^verbatim>\<open>try\<close>) and an event
  with that time is produced.
\<close>

definition produce_time_event ::
  "mediator \<Rightarrow> regf_key \<Rightarrow> string \<Rightarrow> (int \<Rightarrow> date_time) \<Rightarrow> time_description \<Rightarrow> event_data
     \<Rightarrow> py_exc option \<times> mediator" where
  "produce_time_event med k n clock description event_data =
     (case get_value_by_name k n of
        None \<Rightarrow> (None, med)
      | Some time_value \<Rightarrow>
          (case get_data_as_integer time_value of
             Inl fault \<Rightarrow> (Some (Raised fault), med)
           | Inr timestamp \<Rightarrow>
               (None,
                ProduceEventWithEventData med
                  (DateTimeValuesEvent (clock timestamp) description) event_data)))"

text \<open>Statements in sequence: an exception skips what follows.\<close>

definition and_then ::
  "py_exc option \<times> mediator \<Rightarrow> (mediator \<Rightarrow> py_exc option \<times> mediator) \<Rightarrow> py_exc option \<times> mediator" where
  "and_then r f = (case r of (None, med) \<Rightarrow> f med | (Some e, med) \<Rightarrow> (Some e, med))"

definition ParseFileReferenceKey_times :: "mediator \<Rightarrow> regf_key \<Rightarrow> event_data \<Rightarrow> py_exc option \<times> mediator" where
  "ParseFileReferenceKey_times med k event_data =
     and_then
       (and_then
          (and_then
             (produce_time_event med k AMCACHE_ENTRY_WRITE_TIME Filetime
                TIME_DESCRIPTION_MODIFICATION event_data)
             (\<lambda>med. produce_time_event med k AMCACHE_FILE_CREATION_TIME Filetime
                TIME_DESCRIPTION_CREATION event_data))
          (\<lambda>med. produce_time_event med k AMCACHE_FILE_MODIFICATION_TIME Filetime
             TIME_DESCRIPTION_MODIFICATION event_data))
       (\<lambda>med. produce_time_event med k AMCACHE_COMPILATION_TIME PosixTime
          TIME_DESCRIPTION_CHANGE event_data)"

definition ParseFileReferenceKey :: "mediator \<Rightarrow> regf_key \<Rightarrow> py_exc option \<times> mediator" where
  "ParseFileReferenceKey med file_reference_key =
     (case ParseFileReferenceKey_reference new_AMCacheFileEventData (key_name file_reference_key) of
        (Some e, event_data) \<Rightarrow> (Some e, med)
      | (None, event_data) \<Rightarrow>
          (case ParseFileReferenceKey_values FILE_REFERENCE_KEY_VALUES med file_reference_key
                  event_data of
             (Some e, event_data', med') \<Rightarrow> (Some e, med')
           | (None, event_data', med') \<Rightarrow>
               ParseFileReferenceKey_times med' file_reference_key event_data'))"

text \<open>A \<^verbatim>\<open>for\<close> loop whose body may raise.\<close>

fun for_each ::
  "(mediator \<Rightarrow> 'a \<Rightarrow> py_exc option \<times> mediator) \<Rightarrow> mediator \<Rightarrow> 'a list \<Rightarrow> py_exc option \<times> mediator" where
  "for_each body med [] = (None, med)"
| "for_each body med (x # xs) =
     (case body med x of
        (Some e, med') \<Rightarrow> (Some e, med')
      | (None, med') \<Rightarrow> for_each body med' xs)"

definition ParseFileKey :: "mediator \<Rightarrow> regf_key \<Rightarrow> py_exc option \<times> mediator" where
  "ParseFileKey med file_key =
     for_each
       (\<lambda>med volume_key. for_each ParseFileReferenceKey med (sub_keys volume_key))
       med (sub_keys file_key)"

subsection \<open>Program keys\<close>

fun ParseProgramKey_values ::
  "(string \<times> string) list \<Rightarrow> mediator \<Rightarrow> regf_key \<Rightarrow> event_data \<Rightarrow> event_data \<times> mediator" where
  "ParseProgramKey_values [] med k event_data = (event_data, med)"
| "ParseProgramKey_values ((vname, attribute_name) # rest) med k event_data =
     (case get_value_by_name k vname of
        None \<Rightarrow> ParseProgramKey_values rest med k event_data
      | Some v \<Rightarrow>
          (case GetValueDataAsObject med v of
             (value_data, med') \<Rightarrow>
               ParseProgramKey_values rest med' k (setattr event_data attribute_name value_data)))"

definition ParseProgramKey :: "mediator \<Rightarrow> regf_key \<Rightarrow> py_exc option \<times> mediator" where
  "ParseProgramKey med program_key =
     (case ParseProgramKey_values PRODUCT_KEY_VALUES med program_key new_AMCacheProgramEventData of
        (event_data, med') \<Rightarrow>
          produce_time_event med' program_key AMCACHE_P_INSTALLATION_TIME PosixTime
            TIME_DESCRIPTION_INSTALLATION event_data)"

definition ParseProgramsKey :: "mediator \<Rightarrow> regf_key \<Rightarrow> py_exc option \<times> mediator" where
  "ParseProgramsKey med programs_key = for_each ParseProgramKey med (sub_keys programs_key)"

subsection \<open>The tree walk\<close>

text \<open>
  \<^verbatim>\<open>_ParseSubKey\<close>. The list of key path segments is one mutable list: the caller appends
  the name of the sub key before the call and pops it after. The list is passed in and
  handed back.
\<close>

fun ParseSubKey ::
    "mediator \<Rightarrow> regf_key \<Rightarrow> string list \<Rightarrow> py_exc option \<times> string list \<times> mediator"
  and ParseSubKey_loop ::
    "mediator \<Rightarrow> regf_key list \<Rightarrow> string list \<Rightarrow> py_exc option \<times> string list \<times> mediator" where
  "ParseSubKey med (Key n t vs sks) key_path_segments =
     (case ProduceDefaultWindowsRegistryEvent med (Key n t vs sks)
             (py_join [backslash] key_path_segments) None of
        (Some e, med') \<Rightarrow> (Some e, key_path_segments, med')
      | (None, med') \<Rightarrow> ParseSubKey_loop med' sks key_path_segments)"
| "ParseSubKey_loop med [] key_path_segments = (None, key_path_segments, med)"
| "ParseSubKey_loop med (sub_key # rest) key_path_segments =
     (case ParseSubKey med sub_key (key_path_segments @ [key_name sub_key]) of
        (Some e, segments', med') \<Rightarrow> (Some e, segments', med')
      | (None, segments', med') \<Rightarrow> ParseSubKey_loop med' rest (butlast segments'))"

fun ParseRootKey_loop ::
  "mediator \<Rightarrow> regf_key list \<Rightarrow> string list \<Rightarrow> py_exc option \<times> mediator" where
  "ParseRootKey_loop med [] key_path_segments = (None, med)"
| "ParseRootKey_loop med (sub_key # rest) key_path_segments =
     (case ParseSubKey med sub_key (key_path_segments @ [key_name sub_key]) of
        (Some e, segments', med') \<Rightarrow> (Some e, med')
      | (None, segments', med') \<Rightarrow>
          (case (if key_name sub_key = ''File'' then ParseFileKey med' sub_key
                 else if key_name sub_key = ''Programs'' then ParseProgramsKey med' sub_key
                 else (None, med')) of
             (Some e, med'') \<Rightarrow> (Some e, med'')
           | (None, med'') \<Rightarrow> ParseRootKey_loop med'' rest (butlast segments')))"

definition ParseRootKey :: "mediator \<Rightarrow> regf_key \<Rightarrow> py_exc option \<times> mediator" where
  "ParseRootKey med root_key =
     (case ProduceDefaultWindowsRegistryEvent med root_key (backslash # ''Root'') None of
        (Some e, med') \<Rightarrow> (Some e, med')
      | (None, med') \<Rightarrow> ParseRootKey_loop med' (sub_keys root_key) ['''', ''Root''])"

text \<open>
  \<^verbatim>\<open>ParseFileObject\<close>. An IOError on opening the file is passed over; the key at the path
  \<^verbatim>\<open>Root\<close> is parsed when there is one.
\<close>

definition ParseFileObject :: "mediator \<Rightarrow> regf_file \<Rightarrow> py_exc option \<times> mediator" where
  "ParseFileObject med file =
     (case open_file_object file of
        Some (Raised (IOError m)) \<Rightarrow> (None, med)
      | Some e \<Rightarrow> (Some e, med)
      | None \<Rightarrow>
          (case get_key_by_path file ''Root'' of
             Some root_key \<Rightarrow> ParseRootKey med root_key
           | None \<Rightarrow>
               (None, ProduceExtractionWarning med ''Root key missing from AMCache.hve file.'')))"

subsection \<open>Descriptions that the properties refer to\<close>

definition no_output :: mediator where
  "no_output = \<lparr>events = [], warnings = []\<rparr>"

text \<open>
  The split of a text at the first occurrence of a separator: the part before it and the
  part after it, or None when the separator does not occur.
\<close>

fun split_first_from :: "string \<Rightarrow> string \<Rightarrow> string \<Rightarrow> (string \<times> string) option" where
  "split_first_from sep cur [] = None"
| "split_first_from sep cur (c # cs) =
     (if startswith (c # cs) sep then Some (cur, drop (length sep) (c # cs))
      else split_first_from sep (cur @ [c]) cs)"

definition split_first :: "string \<Rightarrow> string \<Rightarrow> (string \<times> string) option" where
  "split_first s sep = split_first_from sep [] s"

text \<open>
  The file reference of a key name as section 4.4 words it: a name that contains
  \<^verbatim>\<open>0000\<close> is split at the first occurrence into the sequence number and the MFT entry,
  both hexadecimal; any other name is one hexadecimal number. None when a number cannot
  be parsed.
\<close>

definition first_split_reference :: "string \<Rightarrow> string option" where
  "first_split_reference name =
     (if py_contains name ''0000''
      then
        (case split_first name ''0000'' of
           None \<Rightarrow> None
         | Some (sequence_hex, entry_hex) \<Rightarrow>
             (case (py_int16 entry_hex, py_int16 sequence_hex) of
                (Inr entry, Inr sequence) \<Rightarrow> Some (format_d entry @ ''-'' @ format_d sequence)
              | _ \<Rightarrow> None))
      else
        (case py_int16 name of
           Inr r \<Rightarrow> Some (format_d r)
         | Inl e \<Rightarrow> None))"

text \<open>
  Whether the separator occurs again after its first occurrence in the text: then the
  split of the text at every occurrence has more than two parts.
\<close>

definition occurs_again :: "string \<Rightarrow> string \<Rightarrow> bool" where
  "occurs_again s sep =
     (case split_first s sep of
        None \<Rightarrow> False
      | Some (before, after) \<Rightarrow> py_contains after sep)"

text \<open>
  The display of one value as section 4.2 words it. A text or integer value whose read
  faults is displayed as the text of None, a multi string value whose read faults as the
  empty list.
\<close>

definition value_text :: "regf_value \<Rightarrow> string" where
  "value_text v =
     (case data v of
        None \<Rightarrow> ''(empty)''
      | Some payload \<Rightarrow>
          if value_type v = REG_MULTI_SZ
          then ''['' @ py_join '', '' (case get_data_as_multi_string v of Inr l \<Rightarrow> l | Inl f \<Rightarrow> []) @ '']''
          else if value_type v \<in> {REG_SZ, REG_EXPAND_SZ, REG_LINK}
          then (case get_data_as_string v of Inr s \<Rightarrow> s | Inl f \<Rightarrow> ''None'')
          else if value_type v \<in> {REG_DWORD, REG_DWORD_BIG_ENDIAN, REG_QWORD}
          then (case get_data_as_integer v of Inr i \<Rightarrow> format_d i | Inl f \<Rightarrow> ''None'')
          else ''('' @ format_d (int (length payload)) @ '' bytes)'')"

text \<open>The values that a skip list leaves: names are compared in lower case.\<close>

definition shown_values :: "string list option \<Rightarrow> regf_value list \<Rightarrow> regf_value list" where
  "shown_values names_to_skip vs =
     filter
       (\<lambda>v. py_lower (display_name v) \<notin>
              set (map py_lower (case names_to_skip of None \<Rightarrow> [] | Some ns \<Rightarrow> ns)))
       vs"

text \<open>
  The value summary as section 4.2 words it: one entry for every shown value, in the
  order of the value names, joined by spaces; None when there is no entry.
\<close>

definition value_summary :: "string list option \<Rightarrow> regf_value list \<Rightarrow> string option" where
  "value_summary names_to_skip vs =
     (if shown_values names_to_skip vs = [] then None
      else Some (py_join '' ''
             (map (\<lambda>v. display_name v @ '': '' @ value_text v)
                (sort_key display_name (shown_values names_to_skip vs)))))"

text \<open>
  The values that a dictionary keyed by the display name keeps: of the values that share a
  display name, the last one in the order of the key.
\<close>

fun last_per_name :: "regf_value list \<Rightarrow> regf_value list" where
  "last_per_name [] = []"
| "last_per_name (v # vs) =
     (if display_name v \<in> set (map display_name vs) then last_per_name vs
      else v # last_per_name vs)"

text \<open>The value summary that \<^verbatim>\<open>_ProduceDefaultWindowsRegistryEvent\<close> computes for a key.\<close>

definition summary_of_key :: "regf_key \<Rightarrow> string list option \<Rightarrow> string option" where
  "summary_of_key k names_to_skip =
     (case fst (GetValuesFromKey no_output k names_to_skip) of
        Inr values_dict \<Rightarrow> values_text_of values_dict
      | Inl e \<Rightarrow> None)"

text \<open>The generic event of a key at a key path.\<close>

definition key_visit_event :: "string \<Rightarrow> regf_key \<Rightarrow> time_event \<times> event_data" where
  "key_visit_event path k =
     (DateTimeValuesEvent (Filetime (get_last_written_time_as_integer k)) TIME_DESCRIPTION_WRITTEN,
      WindowsRegistryEventData path (summary_of_key k None))"

fun is_key_visit :: "time_event \<times> event_data \<Rightarrow> bool" where
  "is_key_visit (ev, WindowsRegistryEventData p s) = True"
| "is_key_visit (ev, AMCacheFileEventData d) = False"
| "is_key_visit (ev, AMCacheProgramEventData d) = False"

text \<open>
  The keys of a tree in depth-first pre-order, each with the stack of key path segments
  that leads to it.
\<close>

fun preorder :: "string list \<Rightarrow> regf_key \<Rightarrow> (string list \<times> regf_key) list" where
  "preorder segments (Key n t vs sks) =
     (segments, Key n t vs sks) #
     concat (map (\<lambda>sub_key. preorder (segments @ [key_name sub_key]) sub_key) sks)"

definition visit_events :: "string list \<Rightarrow> regf_key \<Rightarrow> (time_event \<times> event_data) list" where
  "visit_events segments k =
     map (\<lambda>(stack, key). key_visit_event (py_join [backslash] stack) key) (preorder segments k)"

text \<open>The events of the specialized handling of a sub key of the Root key.\<close>

definition specialized_events :: "regf_key \<Rightarrow> (time_event \<times> event_data) list" where
  "specialized_events sub_key =
     (if key_name sub_key = ''File'' then events (snd (ParseFileKey no_output sub_key))
      else if key_name sub_key = ''Programs'' then events (snd (ParseProgramsKey no_output sub_key))
      else [])"

text \<open>
  The events of a walk that runs to its end: the generic event of the Root key, then for
  each of its sub keys in turn the generic events of the sub tree followed by the events
  of its specialized handling.
\<close>

definition walk_events :: "regf_key \<Rightarrow> (time_event \<times> event_data) list" where
  "walk_events root_key =
     key_visit_event (backslash # ''Root'') root_key #
     concat (map (\<lambda>sub_key. visit_events ['''', ''Root'', key_name sub_key] sub_key @
                    specialized_events sub_key)
               (sub_keys root_key))"

text \<open>The event data object that \<^verbatim>\<open>_ParseFileReferenceKey\<close> fills in for a key.\<close>

definition file_event_data :: "mediator \<Rightarrow> regf_key \<Rightarrow> event_data" where
  "file_event_data med k =
     fst (snd (ParseFileReferenceKey_values FILE_REFERENCE_KEY_VALUES med k
       (snd (ParseFileReferenceKey_reference new_AMCacheFileEventData (key_name k)))))"

definition program_event_data :: "mediator \<Rightarrow> regf_key \<Rightarrow> event_data" where
  "program_event_data med k =
     fst (ParseProgramKey_values PRODUCT_KEY_VALUES med k new_AMCacheProgramEventData)"

text \<open>The event of a time value: none when the key lacks the value or its read faults.\<close>

definition time_events ::
  "regf_key \<Rightarrow> string \<Rightarrow> (int \<Rightarrow> date_time) \<Rightarrow> time_description \<Rightarrow> event_data
     \<Rightarrow> (time_event \<times> event_data) list" where
  "time_events k n clock description event_data =
     (case get_value_by_name k n of
        None \<Rightarrow> []
      | Some time_value \<Rightarrow>
          (case get_data_as_integer time_value of
             Inl fault \<Rightarrow> []
           | Inr timestamp \<Rightarrow> [(DateTimeValuesEvent (clock timestamp) description, event_data)]))"

text \<open>A time value that is absent or whose integer can be read.\<close>

definition integer_readable :: "regf_key \<Rightarrow> string \<Rightarrow> bool" where
  "integer_readable k n =
     (case get_value_by_name k n of
        None \<Rightarrow> True
      | Some time_value \<Rightarrow>
          (case get_data_as_integer time_value of Inl fault \<Rightarrow> False | Inr timestamp \<Rightarrow> True))"

text \<open>A SHA-1 value that is absent or that is read as text.\<close>

definition sha1_is_text :: "regf_key \<Rightarrow> bool" where
  "sha1_is_text k =
     (case get_value_by_name k ''101'' of
        None \<Rightarrow> True
      | Some v \<Rightarrow> (case fst (GetValueDataAsObject no_output v) of PyStr s \<Rightarrow> True | _ \<Rightarrow> False))"

text \<open>
  A procedure streams its events when the outcome and the events it adds do not depend on
  what the mediator already holds.
\<close>

definition streams :: "(mediator \<Rightarrow> 'a \<Rightarrow> py_exc option \<times> mediator) \<Rightarrow> bool" where
  "streams body =
     (\<forall>med x. fst (body med x) = fst (body no_output x) \<and>
        events (snd (body med x)) = events med @ events (snd (body no_output x)))"

text \<open>
  The events of the four time values of a file reference key, in the order of the source:
  a fault at one read ends the method, so the later values are not looked at.
\<close>

definition file_time_events :: "regf_key \<Rightarrow> event_data \<Rightarrow> (time_event \<times> event_data) list" where
  "file_time_events k event_data =
     time_events k ''17'' Filetime TIME_DESCRIPTION_MODIFICATION event_data @
     (if integer_readable k ''17''
      then time_events k ''12'' Filetime TIME_DESCRIPTION_CREATION event_data @
        (if integer_readable k ''12''
         then time_events k ''11'' Filetime TIME_DESCRIPTION_MODIFICATION event_data @
           (if integer_readable k ''11''
            then time_events k ''f'' PosixTime TIME_DESCRIPTION_CHANGE event_data
            else [])
         else [])
      else [])"

subsection \<open>Example keys\<close>

text \<open>
  A text value, and an integer value of a given type with its raw payload. A typed read
  of the wrong kind faults, as the reads of the registry library do.
\<close>

definition text_value :: "string \<Rightarrow> string \<Rightarrow> regf_value" where
  "text_value n s =
     \<lparr>value_name = n, value_type = REG_SZ, data = Some s,
      get_data_as_string = Inr s,
      get_data_as_integer = Inl (IOError ''unsupported integer value type''),
      get_data_as_multi_string = Inl (IOError ''unsupported string value type'')\<rparr>"

definition integer_value :: "string \<Rightarrow> nat \<Rightarrow> string \<Rightarrow> int \<Rightarrow> regf_value" where
  "integer_value n t payload i =
     \<lparr>value_name = n, value_type = t, data = Some payload,
      get_data_as_string = Inl (IOError ''unsupported string value type''),
      get_data_as_integer = Inr i,
      get_data_as_multi_string = Inl (IOError ''unsupported string value type'')\<rparr>"

text \<open>A text value whose data cannot be read.\<close>

definition unreadable_text_value :: "string \<Rightarrow> string \<Rightarrow> regf_value" where
  "unreadable_text_value n payload =
     \<lparr>value_name = n, value_type = REG_SZ, data = Some payload,
      get_data_as_string = Inl (IOError ''unable to read value data''),
      get_data_as_integer = Inl (IOError ''unsupported integer value type''),
      get_data_as_multi_string = Inl (IOError ''unsupported string value type'')\<rparr>"

definition example_file_key :: regf_key where
  "example_file_key =
     Key ''e00001234'' 30
       [text_value ''101'' ''0000da39a3ee'',
        integer_value ''17'' REG_QWORD [CHR 0x05, CHR 0x00, CHR 0x00, CHR 0x00,
          CHR 0x00, CHR 0x00, CHR 0x00, CHR 0x00] 5,
        integer_value ''f'' REG_DWORD [CHR 0x07, CHR 0x00, CHR 0x00, CHR 0x00] 7]
       []"

definition example_program_key :: regf_key where
  "example_program_key =
     Key ''0006a1b2'' 40
       [text_value ''0'' ''Tool'',
        integer_value ''a'' REG_DWORD [CHR 0x09, CHR 0x00, CHR 0x00, CHR 0x00] 9]
       []"

definition example_root_key :: regf_key where
  "example_root_key =
     Key ''Root'' 10 []
       [Key ''File'' 20 [] [Key ''vol1'' 25 [] [example_file_key]],
        Key ''Programs'' 35 [] [example_program_key]]"

text \<open>A file reference key whose SHA-1 value is stored as an integer.\<close>

definition sha1_integer_key :: regf_key where
  "sha1_integer_key =
     Key ''e00001234'' 30
       [integer_value ''101'' REG_DWORD [CHR 0x05, CHR 0x00, CHR 0x00, CHR 0x00] 5,
        integer_value ''17'' REG_QWORD [CHR 0x05, CHR 0x00, CHR 0x00, CHR 0x00,
          CHR 0x00, CHR 0x00, CHR 0x00, CHR 0x00] 5]
       []"

text \<open>A file reference key whose entry write time is stored as text.\<close>

definition text_time_key :: regf_key where
  "text_time_key =
     Key ''e00001234'' 30
       [text_value ''17'' ''2019'',
        integer_value ''12'' REG_QWORD [CHR 0x06, CHR 0x00, CHR 0x00, CHR 0x00,
          CHR 0x00, CHR 0x00, CHR 0x00, CHR 0x00] 6]
       []"

text \<open>
  A file reference key whose entry write time is a readable integer and whose file creation
  time is stored as text.
\<close>

definition text_creation_time_key :: regf_key where
  "text_creation_time_key =
     Key ''e00001234'' 30
       [integer_value ''17'' REG_QWORD [CHR 0x05, CHR 0x00, CHR 0x00, CHR 0x00,
          CHR 0x00, CHR 0x00, CHR 0x00, CHR 0x00] 5,
        text_value ''12'' ''2019'']
       []"

text \<open>A program key whose installation time is stored as text.\<close>

definition text_time_program_key :: regf_key where
  "text_time_program_key =
     Key ''0006a1b2'' 40 [text_value ''0'' ''Tool'', text_value ''a'' ''2019''] []"

text \<open>
  A hive in which the SHA-1 value of the one file reference key cannot be read, next to a
  Programs key.
\<close>

definition unreadable_sha1_root_key :: regf_key where
  "unreadable_sha1_root_key =
     Key ''Root'' 10 []
       [Key ''File'' 20 []
          [Key ''vol1'' 25 []
             [Key ''e00001234'' 30 [unreadable_text_value ''101'' ''0000da39a3ee''] []]],
        Key ''Programs'' 35 [] [example_program_key]]"

definition hive_with_root :: "regf_key \<Rightarrow> regf_file" where
  "hive_with_root root_key =
     \<lparr>open_file_object = None,
      get_key_by_path = (\<lambda>path. if path = ''Root'' then Some root_key else None)\<rparr>"

section \<open>Properties\<close>

lemmas REG_defs =
  REG_SZ_def REG_EXPAND_SZ_def REG_BINARY_def REG_DWORD_def REG_DWORD_BIG_ENDIAN_def
  REG_LINK_def REG_MULTI_SZ_def REG_QWORD_def

lemmas AMCACHE_defs =
  AMCACHE_COMPILATION_TIME_def AMCACHE_FILE_MODIFICATION_TIME_def
  AMCACHE_FILE_CREATION_TIME_def AMCACHE_ENTRY_WRITE_TIME_def AMCACHE_P_INSTALLATION_TIME_def

lemma events_ProduceExtractionWarning [simp]:
  "events (ProduceExtractionWarning med msg) = events med"
  by (simp add: ProduceExtractionWarning_def)

lemma events_ProduceEventWithEventData [simp]:
  "events (ProduceEventWithEventData med ev ed) = events med @ [(ev, ed)]"
  by (simp add: ProduceEventWithEventData_def)

lemma warnings_ProduceEventWithEventData [simp]:
  "warnings (ProduceEventWithEventData med ev ed) = warnings med"
  by (simp add: ProduceEventWithEventData_def)

lemma GetValueDataAsObject_events [simp]:
  "events (snd (GetValueDataAsObject med v)) = events med"
  by (simp add: GetValueDataAsObject_def split: sum.splits)

lemma GetValueDataAsObject_object:
  "fst (GetValueDataAsObject med v) = fst (GetValueDataAsObject med' v)"
  by (simp add: GetValueDataAsObject_def split: sum.splits)

lemma GetValueDataAsObject_multi:
  "value_type v = REG_MULTI_SZ \<Longrightarrow>
   fst (GetValueDataAsObject med v) =
     (case get_data_as_multi_string v of Inl f \<Rightarrow> PyNone | Inr l \<Rightarrow> PyList l)"
  by (simp add: GetValueDataAsObject_def REG_defs split: sum.splits)

lemma GetValueDataAsObject_other:
  "value_type v \<noteq> REG_MULTI_SZ \<Longrightarrow>
   value_type v \<notin> {REG_DWORD, REG_DWORD_BIG_ENDIAN, REG_EXPAND_SZ, REG_LINK, REG_QWORD, REG_SZ} \<Longrightarrow>
   GetValueDataAsObject med v = ((case data v of None \<Rightarrow> PyNone | Some b \<Rightarrow> PyBytes b), med)"
  by (auto simp add: GetValueDataAsObject_def REG_defs split: sum.splits)

lemma value_string_no_exception:
  "\<exists>s. fst (value_string med v) = Inr s"
proof (cases "data v")
  case None
  then show ?thesis by (simp add: value_string_def)
next
  case (Some b)
  show ?thesis
  proof (cases "value_type v = REG_MULTI_SZ")
    case True
    with Some GetValueDataAsObject_multi [OF True, of med] show ?thesis
      by (cases "GetValueDataAsObject med v")
         (auto simp add: value_string_def split: sum.splits)
  next
    case False
    show ?thesis
    proof (cases "value_type v \<in>
        {REG_DWORD, REG_DWORD_BIG_ENDIAN, REG_EXPAND_SZ, REG_LINK, REG_QWORD, REG_SZ}")
      case True
      with Some False show ?thesis
        by (cases "GetValueDataAsObject med v") (simp add: value_string_def)
    next
      case other: False
      with Some False GetValueDataAsObject_other [OF False other, of med] show ?thesis
        by (simp add: value_string_def)
    qed
  qed
qed

lemma value_string_events [simp]:
  "events (snd (value_string med v)) = events med"
proof -
  have "events (snd (GetValueDataAsObject med v)) = events med" by simp
  then show ?thesis
    by (cases "GetValueDataAsObject med v") (simp add: value_string_def)
qed

lemma value_string_text:
  "fst (value_string med v) = fst (value_string med' v)"
proof -
  obtain a m where a: "GetValueDataAsObject med v = (a, m)" by (cases "GetValueDataAsObject med v")
  obtain b n where b: "GetValueDataAsObject med' v = (b, n)" by (cases "GetValueDataAsObject med' v")
  from a b GetValueDataAsObject_object [of med v med'] have "a = b" by simp
  with a b show ?thesis by (simp add: value_string_def)
qed

lemma GetValuesFromKey_loop_no_exception:
  "\<exists>d. fst (GetValuesFromKey_loop skip vs values_dict med) = Inr d"
proof (induction vs arbitrary: values_dict med)
  case Nil
  show ?case by simp
next
  case (Cons v vs)
  obtain s where s: "fst (value_string med v) = Inr s"
    using value_string_no_exception by blast
  then obtain m where m: "value_string med v = (Inr s, m)"
    by (cases "value_string med v") simp
  show ?case
    using Cons.IH m by simp
qed

lemma GetValuesFromKey_loop_events [simp]:
  "events (snd (GetValuesFromKey_loop skip vs values_dict med)) = events med"
proof (induction vs arbitrary: values_dict med)
  case Nil
  show ?case by simp
next
  case (Cons v vs)
  obtain r m where m: "value_string med v = (r, m)"
    by (cases "value_string med v")
  have "events m = events med"
    using value_string_events [of med v] m by simp
  then show ?case
    using Cons.IH m by (cases r) simp_all
qed

lemma GetValuesFromKey_loop_dict:
  "fst (GetValuesFromKey_loop skip vs values_dict med) =
   fst (GetValuesFromKey_loop skip vs values_dict med')"
proof (induction vs arbitrary: values_dict med med')
  case Nil
  show ?case by simp
next
  case (Cons v vs)
  obtain r m where m: "value_string med v = (r, m)"
    by (cases "value_string med v")
  obtain r' m' where m': "value_string med' v = (r', m')"
    by (cases "value_string med' v")
  have "r = r'"
    using value_string_text [of med v med'] m m' by simp
  then show ?case
    using Cons.IH [of _ m m'] Cons.IH [of values_dict med med'] m m'
    by (auto split: sum.splits)
qed

lemma ProduceDefaultWindowsRegistryEvent_result:
  "fst (ProduceDefaultWindowsRegistryEvent med k path names_to_skip) = None \<and>
   events (snd (ProduceDefaultWindowsRegistryEvent med k path names_to_skip)) =
     events med @
     [(DateTimeValuesEvent (Filetime (get_last_written_time_as_integer k)) TIME_DESCRIPTION_WRITTEN,
       WindowsRegistryEventData path (summary_of_key k names_to_skip))]"
proof -
  obtain d where d: "fst (GetValuesFromKey med k names_to_skip) = Inr d"
    unfolding GetValuesFromKey_def using GetValuesFromKey_loop_no_exception by blast
  then obtain m where m: "GetValuesFromKey med k names_to_skip = (Inr d, m)"
    by (cases "GetValuesFromKey med k names_to_skip") simp
  have "events (snd (GetValuesFromKey med k names_to_skip)) = events med"
    unfolding GetValuesFromKey_def by simp
  with m have ev: "events m = events med"
    by simp
  have "fst (GetValuesFromKey no_output k names_to_skip) = Inr d"
    using d GetValuesFromKey_loop_dict [of _ "key_values k" "[]" med no_output]
    unfolding GetValuesFromKey_def by simp
  then have "summary_of_key k names_to_skip = values_text_of d"
    by (simp add: summary_of_key_def)
  with m ev show ?thesis
    by (simp add: ProduceDefaultWindowsRegistryEvent_def)
qed

text \<open>
  C4 (as amended). The table of the file reference keys maps nine value names, among them
  \<^verbatim>\<open>0\<close> to \<^verbatim>\<open>product_name\<close> and \<^verbatim>\<open>101\<close> to \<^verbatim>\<open>sha1\<close>; the table of the program keys maps
  eleven value names, among them \<^verbatim>\<open>0\<close> to \<^verbatim>\<open>name\<close> and \<^verbatim>\<open>f\<close> to \<^verbatim>\<open>product_code\<close>.
\<close>

theorem C4_mapping_tables:
  "distinct (map fst FILE_REFERENCE_KEY_VALUES) \<and>
   length FILE_REFERENCE_KEY_VALUES = 9 \<and>
   map_of FILE_REFERENCE_KEY_VALUES ''0'' = Some ''product_name'' \<and>
   map_of FILE_REFERENCE_KEY_VALUES ''101'' = Some ''sha1'' \<and>
   distinct (map fst PRODUCT_KEY_VALUES) \<and>
   length PRODUCT_KEY_VALUES = 11 \<and>
   map_of PRODUCT_KEY_VALUES ''0'' = Some ''name'' \<and>
   map_of PRODUCT_KEY_VALUES ''f'' = Some ''product_code''"
  by (simp add: FILE_REFERENCE_KEY_VALUES_def PRODUCT_KEY_VALUES_def)

text \<open>
  C4 as the specification states it fails: the tables do not have ten and twelve entries.
\<close>

theorem C4_table_sizes_counterexample:
  "length FILE_REFERENCE_KEY_VALUES = 9 \<and> length FILE_REFERENCE_KEY_VALUES \<noteq> 10 \<and>
   length PRODUCT_KEY_VALUES = 11 \<and> length PRODUCT_KEY_VALUES \<noteq> 12"
  by (simp add: FILE_REFERENCE_KEY_VALUES_def PRODUCT_KEY_VALUES_def)

text \<open>
  C8. When the file opens and has no key at the path \<^verbatim>\<open>Root\<close>, parsing returns normally,
  adds the one warning \<^verbatim>\<open>Root key missing from AMCache.hve file.\<close> and produces no event.
\<close>

theorem C8_missing_root_key:
  assumes "open_file_object file = None"
    and "get_key_by_path file ''Root'' = None"
  shows "ParseFileObject med file =
      (None, med\<lparr>warnings := warnings med @ [''Root key missing from AMCache.hve file.'']\<rparr>) \<and>
    events (snd (ParseFileObject med file)) = events med"
  using assms by (simp add: ParseFileObject_def ProduceExtractionWarning_def)

theorem C8_missing_root_key_witness:
  "ParseFileObject no_output \<lparr>open_file_object = None, get_key_by_path = (\<lambda>p. None)\<rparr> =
     (None, \<lparr>events = [], warnings = [''Root key missing from AMCache.hve file.'']\<rparr>)"
  using C8_missing_root_key [of "\<lparr>open_file_object = None, get_key_by_path = (\<lambda>p. None)\<rparr>" no_output]
  by (simp add: no_output_def)
lemma events_no_output [simp]: "events no_output = []"
  by (simp add: no_output_def)

lemma streamsD:
  assumes "streams body"
  shows "fst (body med x) = fst (body no_output x)"
    and "events (snd (body med x)) = events med @ events (snd (body no_output x))"
  using assms unfolding streams_def by blast+

lemma streams_for_each:
  assumes "streams body"
  shows "streams (for_each body)"
  unfolding streams_def
proof (intro allI)
  fix med :: mediator and xs :: "'a list"
  have "\<And>med med'. events med = pre @ events med' \<Longrightarrow>
      fst (for_each body med xs) = fst (for_each body med' xs) \<and>
      events (snd (for_each body med xs)) = pre @ events (snd (for_each body med' xs))" for pre
  proof (induction xs)
    case Nil
    then show ?case by simp
  next
    case (Cons x xs)
    obtain r m where m: "body med x = (r, m)" by (cases "body med x")
    obtain r' m' where m': "body med' x = (r', m')" by (cases "body med' x")
    have "r = r'"
      using streamsD(1) [OF assms, of med x] streamsD(1) [OF assms, of med' x] m m' by simp
    moreover have "events m = pre @ events m'"
      using streamsD(2) [OF assms, of med x] streamsD(2) [OF assms, of med' x] m m' Cons.prems
      by simp
    ultimately show ?case
      using Cons.IH [of m m'] m m' by (cases r') simp_all
  qed
  from this [of med "events med" no_output]
  show "fst (for_each body med xs) = fst (for_each body no_output xs) \<and>
    events (snd (for_each body med xs)) = events med @ events (snd (for_each body no_output xs))"
    by simp
qed

lemma for_each_Cons_events:
  assumes "streams body"
  shows "events (snd (for_each body med (x # xs))) =
    events med @ events (snd (body no_output x)) @
      (if fst (body no_output x) = None then events (snd (for_each body no_output xs)) else [])"
proof -
  obtain r m where m: "body med x = (r, m)" by (cases "body med x")
  have r: "r = fst (body no_output x)"
    using streamsD(1) [OF assms, of med x] m by simp
  have e: "events m = events med @ events (snd (body no_output x))"
    using streamsD(2) [OF assms, of med x] m by simp
  show ?thesis
  proof (cases r)
    case None
    then show ?thesis
      using m r e streamsD(2) [OF streams_for_each [OF assms], of m xs] by simp
  next
    case (Some a)
    then show ?thesis
      using m r e by simp
  qed
qed

lemma produce_time_event_events:
  "events (snd (produce_time_event med k n clock description ed)) =
     events med @ time_events k n clock description ed"
  by (simp add: produce_time_event_def time_events_def split: option.splits sum.splits)

lemma produce_time_event_warnings:
  "warnings (snd (produce_time_event med k n clock description ed)) = warnings med"
  by (simp add: produce_time_event_def split: option.splits sum.splits)

lemma produce_time_event_None:
  "fst (produce_time_event med k n clock description ed) = None \<longleftrightarrow> integer_readable k n"
  by (simp add: produce_time_event_def integer_readable_def split: option.splits sum.splits)

lemma ParseFileReferenceKey_times_result:
  "fst (ParseFileReferenceKey_times med k ed) = None \<longleftrightarrow>
     integer_readable k ''17'' \<and> integer_readable k ''12'' \<and>
     integer_readable k ''11'' \<and> integer_readable k ''f''"
  "events (snd (ParseFileReferenceKey_times med k ed)) =
     events med @ time_events k ''17'' Filetime TIME_DESCRIPTION_MODIFICATION ed @
     (if integer_readable k ''17''
      then time_events k ''12'' Filetime TIME_DESCRIPTION_CREATION ed @
        (if integer_readable k ''12''
         then time_events k ''11'' Filetime TIME_DESCRIPTION_MODIFICATION ed @
           (if integer_readable k ''11''
            then time_events k ''f'' PosixTime TIME_DESCRIPTION_CHANGE ed
            else [])
         else [])
      else [])"
proof -
  let ?p = "\<lambda>m n c d. produce_time_event m k n c d ed"
  obtain r1 m1 where 1: "?p med ''17'' Filetime TIME_DESCRIPTION_MODIFICATION = (r1, m1)"
    by (cases "?p med ''17'' Filetime TIME_DESCRIPTION_MODIFICATION")
  obtain r2 m2 where 2: "?p m1 ''12'' Filetime TIME_DESCRIPTION_CREATION = (r2, m2)"
    by (cases "?p m1 ''12'' Filetime TIME_DESCRIPTION_CREATION")
  obtain r3 m3 where 3: "?p m2 ''11'' Filetime TIME_DESCRIPTION_MODIFICATION = (r3, m3)"
    by (cases "?p m2 ''11'' Filetime TIME_DESCRIPTION_MODIFICATION")
  obtain r4 m4 where 4: "?p m3 ''f'' PosixTime TIME_DESCRIPTION_CHANGE = (r4, m4)"
    by (cases "?p m3 ''f'' PosixTime TIME_DESCRIPTION_CHANGE")
  note n =
    produce_time_event_None [of med k "''17''" Filetime TIME_DESCRIPTION_MODIFICATION ed]
    produce_time_event_None [of m1 k "''12''" Filetime TIME_DESCRIPTION_CREATION ed]
    produce_time_event_None [of m2 k "''11''" Filetime TIME_DESCRIPTION_MODIFICATION ed]
    produce_time_event_None [of m3 k "''f''" PosixTime TIME_DESCRIPTION_CHANGE ed]
  note e =
    produce_time_event_events [of med k "''17''" Filetime TIME_DESCRIPTION_MODIFICATION ed]
    produce_time_event_events [of m1 k "''12''" Filetime TIME_DESCRIPTION_CREATION ed]
    produce_time_event_events [of m2 k "''11''" Filetime TIME_DESCRIPTION_MODIFICATION ed]
    produce_time_event_events [of m3 k "''f''" PosixTime TIME_DESCRIPTION_CHANGE ed]
  show "fst (ParseFileReferenceKey_times med k ed) = None \<longleftrightarrow>
     integer_readable k ''17'' \<and> integer_readable k ''12'' \<and>
     integer_readable k ''11'' \<and> integer_readable k ''f''"
    using n 1 2 3 4
    by (cases r1; cases r2; cases r3; cases r4)
       (simp_all add: ParseFileReferenceKey_times_def and_then_def AMCACHE_defs)
  show "events (snd (ParseFileReferenceKey_times med k ed)) =
     events med @ time_events k ''17'' Filetime TIME_DESCRIPTION_MODIFICATION ed @
     (if integer_readable k ''17''
      then time_events k ''12'' Filetime TIME_DESCRIPTION_CREATION ed @
        (if integer_readable k ''12''
         then time_events k ''11'' Filetime TIME_DESCRIPTION_MODIFICATION ed @
           (if integer_readable k ''11''
            then time_events k ''f'' PosixTime TIME_DESCRIPTION_CHANGE ed
            else [])
         else [])
      else [])"
    using n e 1 2 3 4
    by (cases r1; cases r2; cases r3; cases r4)
       (simp_all add: ParseFileReferenceKey_times_def and_then_def AMCACHE_defs)
qed
lemma produce_time_event_outcome:
  "fst (produce_time_event med k n clock description ed) =
   fst (produce_time_event med' k n clock description ed)"
  by (simp add: produce_time_event_def split: option.splits sum.splits)

lemma and_then_outcome:
  assumes "fst r = fst r'" and "\<And>m m'. fst (f m) = fst (f m')"
  shows "fst (and_then r f) = fst (and_then r' f)"
proof -
  obtain a m where r: "r = (a, m)" by (cases r)
  obtain a' m' where r': "r' = (a', m')" by (cases r')
  from assms(1) r r' have "a = a'" by simp
  with r r' assms(2) [of m m'] show ?thesis
    by (cases a') (simp_all add: and_then_def)
qed

lemma ParseFileReferenceKey_times_outcome:
  "fst (ParseFileReferenceKey_times med k ed) = fst (ParseFileReferenceKey_times med' k ed)"
  unfolding ParseFileReferenceKey_times_def
  by (intro and_then_outcome produce_time_event_outcome)

lemma ParseFileReferenceKey_times_streams:
  "events (snd (ParseFileReferenceKey_times med k ed)) =
   events med @ events (snd (ParseFileReferenceKey_times no_output k ed))"
  by (simp add: ParseFileReferenceKey_times_result(2))

lemma ParseFileReferenceKey_values_outcome:
  "fst (ParseFileReferenceKey_values tbl med k ed) =
     fst (ParseFileReferenceKey_values tbl med' k ed) \<and>
   fst (snd (ParseFileReferenceKey_values tbl med k ed)) =
     fst (snd (ParseFileReferenceKey_values tbl med' k ed)) \<and>
   events (snd (snd (ParseFileReferenceKey_values tbl med k ed))) = events med"
proof (induction tbl arbitrary: med med' ed)
  case Nil
  show ?case by simp
next
  case (Cons entry tbl)
  obtain vname attribute_name where entry: "entry = (vname, attribute_name)"
    by (cases entry)
  show ?case
  proof (cases "get_value_by_name k vname")
    case None
    with entry Cons.IH [where med = med and med' = med'] show ?thesis by simp
  next
    case (Some v)
    obtain x m where m: "GetValueDataAsObject med v = (x, m)"
      by (cases "GetValueDataAsObject med v")
    obtain x' m' where m': "GetValueDataAsObject med' v = (x', m')"
      by (cases "GetValueDataAsObject med' v")
    have x: "x = x'"
      using GetValueDataAsObject_object [of med v med'] m m' by simp
    have e: "events m = events med"
      using GetValueDataAsObject_events [of med v] m by simp
    show ?thesis
      using entry Some m m' x e Cons.IH [where med = m and med' = m']
      by (simp split: sum.splits)
  qed
qed

lemma py_int16_exception:
  "py_int16 s = Inl e \<Longrightarrow> e = ValueError"
  by (auto simp add: py_int16_def Let_def split: prod.splits option.splits if_splits)

lemma file_reference_of_name_exception:
  "file_reference_of_name name = Inl e \<Longrightarrow> e = ValueError"
  by (auto simp add: file_reference_of_name_def py_split_def
      split: if_splits sum.splits list.splits dest: py_int16_exception)

lemma ParseFileReferenceKey_reference_no_exception:
  "fst (ParseFileReferenceKey_reference ed name) = None"
  by (auto simp add: ParseFileReferenceKey_reference_def
      split: sum.splits dest: file_reference_of_name_exception)

lemma streams_ParseFileReferenceKey: "streams ParseFileReferenceKey"
  unfolding streams_def
proof (intro allI)
  fix med k
  obtain ed0 where ed0:
    "ParseFileReferenceKey_reference new_AMCacheFileEventData (key_name k) = (None, ed0)"
    using ParseFileReferenceKey_reference_no_exception [of new_AMCacheFileEventData "key_name k"]
    by (cases "ParseFileReferenceKey_reference new_AMCacheFileEventData (key_name k)") simp
  let ?v = "\<lambda>m. ParseFileReferenceKey_values FILE_REFERENCE_KEY_VALUES m k ed0"
  obtain r ed m where m: "?v med = (r, ed, m)" by (cases "?v med")
  obtain r' ed' m' where m': "?v no_output = (r', ed', m')" by (cases "?v no_output")
  from ParseFileReferenceKey_values_outcome [of FILE_REFERENCE_KEY_VALUES med k ed0 no_output]
    ParseFileReferenceKey_values_outcome [of FILE_REFERENCE_KEY_VALUES no_output k ed0 med] m m'
  have eq: "r = r'" "ed = ed'" "events m = events med" "events m' = []"
    by simp_all
  show "fst (ParseFileReferenceKey med k) = fst (ParseFileReferenceKey no_output k) \<and>
    events (snd (ParseFileReferenceKey med k)) =
      events med @ events (snd (ParseFileReferenceKey no_output k))"
  proof (cases r')
    case None
    with ed0 m m' eq ParseFileReferenceKey_times_outcome [of m k ed' m']
      ParseFileReferenceKey_times_streams [of m k ed']
      ParseFileReferenceKey_times_streams [of m' k ed']
    show ?thesis
      by (simp add: ParseFileReferenceKey_def)
  next
    case (Some a)
    with ed0 m m' eq show ?thesis
      by (simp add: ParseFileReferenceKey_def)
  qed
qed

lemma ParseProgramKey_values_outcome:
  "fst (ParseProgramKey_values tbl med k ed) = fst (ParseProgramKey_values tbl med' k ed) \<and>
   events (snd (ParseProgramKey_values tbl med k ed)) = events med"
proof (induction tbl arbitrary: med med' ed)
  case Nil
  show ?case by simp
next
  case (Cons entry tbl)
  obtain vname attribute_name where entry: "entry = (vname, attribute_name)"
    by (cases entry)
  show ?case
  proof (cases "get_value_by_name k vname")
    case None
    with entry Cons.IH [where med = med and med' = med'] show ?thesis by simp
  next
    case (Some v)
    obtain x m where m: "GetValueDataAsObject med v = (x, m)"
      by (cases "GetValueDataAsObject med v")
    obtain x' m' where m': "GetValueDataAsObject med' v = (x', m')"
      by (cases "GetValueDataAsObject med' v")
    have x: "x = x'"
      using GetValueDataAsObject_object [of med v med'] m m' by simp
    have e: "events m = events med"
      using GetValueDataAsObject_events [of med v] m by simp
    show ?thesis
      using entry Some m m' x e Cons.IH [where med = m and med' = m'] by simp
  qed
qed

lemma ParseProgramKey_result:
  "fst (ParseProgramKey med k) =
     fst (produce_time_event no_output k ''a'' PosixTime TIME_DESCRIPTION_INSTALLATION
            (program_event_data med k)) \<and>
   events (snd (ParseProgramKey med k)) =
     events med @
     time_events k ''a'' PosixTime TIME_DESCRIPTION_INSTALLATION (program_event_data med k)"
proof -
  obtain ed m where m:
    "ParseProgramKey_values PRODUCT_KEY_VALUES med k new_AMCacheProgramEventData = (ed, m)"
    by (cases "ParseProgramKey_values PRODUCT_KEY_VALUES med k new_AMCacheProgramEventData")
  have "events m = events med"
    using ParseProgramKey_values_outcome
      [of PRODUCT_KEY_VALUES med k new_AMCacheProgramEventData med] m by simp
  then show ?thesis
    using m produce_time_event_events [of m k "''a''" PosixTime TIME_DESCRIPTION_INSTALLATION ed]
      produce_time_event_outcome [of m k "''a''" PosixTime TIME_DESCRIPTION_INSTALLATION ed no_output]
    by (simp add: ParseProgramKey_def program_event_data_def AMCACHE_defs)
qed

lemma program_event_data_mediator:
  "program_event_data med k = program_event_data med' k"
  using ParseProgramKey_values_outcome [of PRODUCT_KEY_VALUES med k new_AMCacheProgramEventData med']
  by (simp add: program_event_data_def)

lemma streams_ParseProgramKey: "streams ParseProgramKey"
  unfolding streams_def
proof (intro allI)
  fix med k
  show "fst (ParseProgramKey med k) = fst (ParseProgramKey no_output k) \<and>
    events (snd (ParseProgramKey med k)) = events med @ events (snd (ParseProgramKey no_output k))"
    using ParseProgramKey_result [of med k] ParseProgramKey_result [of no_output k]
      program_event_data_mediator [of med k no_output]
    by simp
qed

lemma streams_ParseProgramsKey: "streams ParseProgramsKey"
proof -
  have "streams (for_each ParseProgramKey)"
    by (rule streams_for_each [OF streams_ParseProgramKey])
  then show ?thesis
    unfolding streams_def ParseProgramsKey_def by blast
qed

lemma streams_ParseFileKey: "streams ParseFileKey"
proof -
  have "streams (for_each ParseFileReferenceKey)"
    by (rule streams_for_each [OF streams_ParseFileReferenceKey])
  then have "streams (\<lambda>med volume_key. for_each ParseFileReferenceKey med (sub_keys volume_key))"
    unfolding streams_def by blast
  then have "streams (for_each
      (\<lambda>med volume_key. for_each ParseFileReferenceKey med (sub_keys volume_key)))"
    by (rule streams_for_each)
  then show ?thesis
    unfolding streams_def ParseFileKey_def by blast
qed
lemma py_join_Root: "py_join [backslash] ['''', ''Root''] = backslash # ''Root''"
  by simp

lemma visit_events_Key:
  "visit_events segments (Key n t vs sks) =
     key_visit_event (py_join [backslash] segments) (Key n t vs sks) #
     concat (map (\<lambda>sub_key. visit_events (segments @ [key_name sub_key]) sub_key) sks)"
  by (simp add: visit_events_def map_concat comp_def)

lemma ParseSubKey_walk:
  "fst (ParseSubKey med k segments) = None \<and>
   fst (snd (ParseSubKey med k segments)) = segments \<and>
   events (snd (snd (ParseSubKey med k segments))) = events med @ visit_events segments k"
  "fst (ParseSubKey_loop med sks segments) = None \<and>
   fst (snd (ParseSubKey_loop med sks segments)) = segments \<and>
   events (snd (snd (ParseSubKey_loop med sks segments))) =
     events med @
     concat (map (\<lambda>sub_key. visit_events (segments @ [key_name sub_key]) sub_key) sks)"
proof (induction med k segments and med sks segments rule: ParseSubKey_ParseSubKey_loop.induct)
  case (1 med n t vs sks key_path_segments)
  let ?k = "Key n t vs sks"
  let ?p = "ProduceDefaultWindowsRegistryEvent med ?k (py_join [backslash] key_path_segments) None"
  obtain m where m: "?p = (None, m)"
    using ProduceDefaultWindowsRegistryEvent_result [of med ?k "py_join [backslash] key_path_segments" None]
    by (cases ?p) simp
  have e: "events m = events med @ [key_visit_event (py_join [backslash] key_path_segments) ?k]"
    using ProduceDefaultWindowsRegistryEvent_result [of med ?k "py_join [backslash] key_path_segments" None] m
    by (simp add: key_visit_event_def)
  from "1.IH" [OF m [symmetric]] m e show ?case
    by (simp add: visit_events_Key)
next
  case (2 med key_path_segments)
  show ?case by simp
next
  case (3 med sub_key rest key_path_segments)
  let ?s = "ParseSubKey med sub_key (key_path_segments @ [key_name sub_key])"
  obtain m where m: "?s = (None, key_path_segments @ [key_name sub_key], m)"
    using "3.IH"(1) by (cases ?s) auto
  have e: "events m = events med @ visit_events (key_path_segments @ [key_name sub_key]) sub_key"
    using "3.IH"(1) m by simp
  from "3.IH"(2) [OF m [symmetric] refl refl] m e show ?case
    by simp
qed

lemma preorder_stacks:
  "(stack, key) \<in> set (preorder segments k) \<Longrightarrow> prefix segments stack"
proof (induction segments k arbitrary: stack key rule: preorder.induct)
  case (1 segments n t vs sks)
  from "1.prems" consider "stack = segments"
    | sub_key where "sub_key \<in> set sks"
        "(stack, key) \<in> set (preorder (segments @ [key_name sub_key]) sub_key)"
    by auto
  then show ?case
  proof cases
    case 1
    then show ?thesis by simp
  next
    case 2
    from "1.IH" [OF 2] show ?thesis
      by (meson append_prefixD)
  qed
qed

lemma walk_events_root_first:
  "walk_events root_key \<noteq> [] \<and>
   hd (walk_events root_key) = key_visit_event (py_join [backslash] ['''', ''Root'']) root_key"
  by (simp add: walk_events_def)
lemma ParseRootKey_loop_Cons:
  assumes "ParseSubKey med sub_key (segments @ [key_name sub_key]) = (None, segs', m)"
    and "(if key_name sub_key = ''File'' then ParseFileKey m sub_key
          else if key_name sub_key = ''Programs'' then ParseProgramsKey m sub_key
          else (None, m)) = (r, m2)"
  shows "ParseRootKey_loop med (sub_key # rest) segments =
    (case r of None \<Rightarrow> ParseRootKey_loop m2 rest (butlast segs') | Some e \<Rightarrow> (Some e, m2))"
proof (cases r)
  case None
  with assms show ?thesis by simp
next
  case (Some a)
  with assms show ?thesis by simp
qed

lemma specialized_handling_events:
  assumes "(if key_name sub_key = ''File'' then ParseFileKey m sub_key
          else if key_name sub_key = ''Programs'' then ParseProgramsKey m sub_key
          else (None, m)) = (r, m2)"
  shows "events m2 = events m @ specialized_events sub_key"
proof -
  consider (in_file) "key_name sub_key = ''File''"
    | (in_programs) "key_name sub_key \<noteq> ''File''" "key_name sub_key = ''Programs''"
    | (other) "key_name sub_key \<noteq> ''File''" "key_name sub_key \<noteq> ''Programs''"
    by blast
  then show ?thesis
  proof cases
    case in_file
    with assms have "ParseFileKey m sub_key = (r, m2)" by simp
    with streamsD(2) [OF streams_ParseFileKey, of m sub_key] in_file show ?thesis
      by (simp add: specialized_events_def)
  next
    case in_programs
    with assms have "ParseProgramsKey m sub_key = (r, m2)" by simp
    with streamsD(2) [OF streams_ParseProgramsKey, of m sub_key] in_programs show ?thesis
      by (simp add: specialized_events_def)
  next
    case other
    with assms show ?thesis
      by (simp add: specialized_events_def)
  qed
qed
lemma ParseRootKey_loop_walk:
  "\<exists>evs. events (snd (ParseRootKey_loop med sks segments)) = events med @ evs \<and>
     prefix evs
       (concat (map (\<lambda>sub_key. visit_events (segments @ [key_name sub_key]) sub_key @
                       specialized_events sub_key) sks)) \<and>
     (fst (ParseRootKey_loop med sks segments) = None \<longrightarrow>
      evs = concat (map (\<lambda>sub_key. visit_events (segments @ [key_name sub_key]) sub_key @
                          specialized_events sub_key) sks))"
proof (induction sks arbitrary: med)
  case Nil
  show ?case by simp
next
  case (Cons sub_key rest)
  define W where "W = (\<lambda>ks. concat (map (\<lambda>sub_key.
      visit_events (segments @ [key_name sub_key]) sub_key @ specialized_events sub_key) ks))"
  define V where "V = visit_events (segments @ [key_name sub_key]) sub_key"
  define S where "S = specialized_events sub_key"
  have W_Cons: "W (sub_key # rest) = V @ S @ W rest"
    by (simp add: W_def V_def S_def)
  obtain m where m: "ParseSubKey med sub_key (segments @ [key_name sub_key]) =
      (None, segments @ [key_name sub_key], m)"
    using ParseSubKey_walk(1) [of med sub_key "segments @ [key_name sub_key]"]
    by (cases "ParseSubKey med sub_key (segments @ [key_name sub_key])") auto
  have e: "events m = events med @ V"
    using ParseSubKey_walk(1) [of med sub_key "segments @ [key_name sub_key]"] m
    by (simp add: V_def)
  obtain r m2 where m2:
    "(if key_name sub_key = ''File'' then ParseFileKey m sub_key
      else if key_name sub_key = ''Programs'' then ParseProgramsKey m sub_key
      else (None, m)) = (r, m2)"
    by (cases "if key_name sub_key = ''File'' then ParseFileKey m sub_key
      else if key_name sub_key = ''Programs'' then ParseProgramsKey m sub_key
      else (None, m)")
  have e2: "events m2 = events med @ V @ S"
    using specialized_handling_events [OF m2] e by (simp add: S_def)
  have step: "ParseRootKey_loop med (sub_key # rest) segments =
      (case r of None \<Rightarrow> ParseRootKey_loop m2 rest segments | Some a \<Rightarrow> (Some a, m2))"
    using ParseRootKey_loop_Cons [OF m m2, of rest]
    by (cases r) (simp_all del: ParseRootKey_loop.simps)
  have "\<exists>evs. events (snd (ParseRootKey_loop med (sub_key # rest) segments)) = events med @ evs \<and>
     prefix evs (W (sub_key # rest)) \<and>
     (fst (ParseRootKey_loop med (sub_key # rest) segments) = None \<longrightarrow> evs = W (sub_key # rest))"
  proof (cases r)
    case None
    have "\<exists>evs. events (snd (ParseRootKey_loop m2 rest segments)) = events m2 @ evs \<and>
        prefix evs (W rest) \<and>
        (fst (ParseRootKey_loop m2 rest segments) = None \<longrightarrow> evs = W rest)"
      using Cons.IH [of m2] unfolding W_def .
    then obtain evs where evs:
      "events (snd (ParseRootKey_loop m2 rest segments)) = events m2 @ evs"
      "prefix evs (W rest)"
      "fst (ParseRootKey_loop m2 rest segments) = None \<longrightarrow> evs = W rest"
      by (elim exE conjE)
    have eq: "ParseRootKey_loop med (sub_key # rest) segments = ParseRootKey_loop m2 rest segments"
      using step None by simp
    have 1: "events (snd (ParseRootKey_loop med (sub_key # rest) segments)) =
        events med @ (V @ S @ evs)"
      by (simp only: eq evs(1) e2 append_assoc)
    have 2: "prefix (V @ S @ evs) (W (sub_key # rest))"
      using evs(2) by (simp only: W_Cons same_prefix_prefix)
    have 3: "fst (ParseRootKey_loop med (sub_key # rest) segments) = None \<longrightarrow>
        V @ S @ evs = W (sub_key # rest)"
      using evs(3) by (simp only: eq W_Cons) simp
    from 1 2 3 show ?thesis by (intro exI [of _ "V @ S @ evs"] conjI)
  next
    case (Some a)
    have eq: "ParseRootKey_loop med (sub_key # rest) segments = (Some a, m2)"
      using step Some by simp
    have 1: "events (snd (ParseRootKey_loop med (sub_key # rest) segments)) = events med @ (V @ S)"
      by (simp only: eq snd_conv e2)
    have 2: "prefix (V @ S) (W (sub_key # rest))"
      unfolding W_Cons by (metis append_assoc prefixI)
    have 3: "fst (ParseRootKey_loop med (sub_key # rest) segments) = None \<longrightarrow>
        V @ S = W (sub_key # rest)"
      by (simp only: eq fst_conv) simp
    from 1 2 3 show ?thesis by (intro exI [of _ "V @ S"] conjI)
  qed
  then show ?case
    unfolding W_def .
qed
lemma ParseRootKey_walk:
  "\<exists>evs. events (snd (ParseRootKey med root_key)) = events med @ evs \<and>
     prefix evs (walk_events root_key) \<and>
     (fst (ParseRootKey med root_key) = None \<longrightarrow> evs = walk_events root_key)"
proof -
  define R where "R = key_visit_event (backslash # ''Root'') root_key"
  define W where "W = concat (map (\<lambda>sub_key.
      visit_events (['''', ''Root''] @ [key_name sub_key]) sub_key @ specialized_events sub_key)
      (sub_keys root_key))"
  let ?p = "ProduceDefaultWindowsRegistryEvent med root_key (backslash # ''Root'') None"
  obtain m where m: "?p = (None, m)"
    using ProduceDefaultWindowsRegistryEvent_result [of med root_key "backslash # ''Root''" None]
    by (cases ?p) simp
  have e: "events m = events med @ [R]"
    using ProduceDefaultWindowsRegistryEvent_result [of med root_key "backslash # ''Root''" None] m
    by (simp add: key_visit_event_def R_def)
  have "\<exists>evs. events (snd (ParseRootKey_loop m (sub_keys root_key) ['''', ''Root''])) =
        events m @ evs \<and> prefix evs W \<and>
      (fst (ParseRootKey_loop m (sub_keys root_key) ['''', ''Root'']) = None \<longrightarrow> evs = W)"
    using ParseRootKey_loop_walk [of m "sub_keys root_key" "['''', ''Root'']"]
    unfolding W_def .
  then obtain evs where evs:
    "events (snd (ParseRootKey_loop m (sub_keys root_key) ['''', ''Root''])) = events m @ evs"
    "prefix evs W"
    "fst (ParseRootKey_loop m (sub_keys root_key) ['''', ''Root'']) = None \<longrightarrow> evs = W"
    by (elim exE conjE)
  have w: "walk_events root_key = R # W"
    by (simp add: walk_events_def R_def W_def)
  have eq: "ParseRootKey med root_key = ParseRootKey_loop m (sub_keys root_key) ['''', ''Root'']"
    using m by (simp add: ParseRootKey_def)
  have 1: "events (snd (ParseRootKey med root_key)) = events med @ (R # evs)"
    by (simp only: eq evs(1) e append_assoc append_Cons append_Nil)
  have 2: "prefix (R # evs) (walk_events root_key)"
    using evs(2) by (simp only: w Cons_prefix_Cons simp_thms)
  have 3: "fst (ParseRootKey med root_key) = None \<longrightarrow> R # evs = walk_events root_key"
    using evs(3) by (simp only: eq w) simp
  from 1 2 3 show ?thesis
    by (intro exI [of _ "R # evs"] conjI)
qed
lemma getattr_setattr_other:
  "a \<noteq> b \<Longrightarrow> getattr (setattr ed a v) b = getattr ed b"
  by (cases ed) (simp_all add: update_conv)

lemma getattr_setattr_same:
  "getattr (setattr (AMCacheFileEventData d) a v) a = Some v"
  "getattr (setattr (AMCacheProgramEventData d) a v) a = Some v"
  by (simp_all add: update_conv)

lemma setattr_not_key_visit:
  "\<not> is_key_visit (ev, ed) \<Longrightarrow> \<not> is_key_visit (ev', setattr ed a v)"
  by (cases ed) simp_all

lemma ParseFileReferenceKey_values_append:
  "ParseFileReferenceKey_values (t1 @ t2) med k ed =
     (case ParseFileReferenceKey_values t1 med k ed of
        (None, ed', med') \<Rightarrow> ParseFileReferenceKey_values t2 med' k ed'
      | (Some e, ed', med') \<Rightarrow> (Some e, ed', med'))"
proof (induction t1 arbitrary: med ed)
  case Nil
  show ?case by simp
next
  case (Cons entry t1)
  obtain vname attribute_name where entry: "entry = (vname, attribute_name)"
    by (cases entry)
  show ?case
  proof (cases "get_value_by_name k vname")
    case None
    with entry Cons.IH show ?thesis by simp
  next
    case (Some v)
    obtain x m where m: "GetValueDataAsObject med v = (x, m)"
      by (cases "GetValueDataAsObject med v")
    show ?thesis
    proof (cases "if attribute_name = ''sha1'' then py_startswith x ''0000'' else Inr False")
      case (Inl e)
      with entry Some m show ?thesis by simp
    next
      case (Inr strip)
      with entry Some m Cons.IH show ?thesis by simp
    qed
  qed
qed

lemma ParseFileReferenceKey_values_no_sha1:
  "''sha1'' \<notin> snd ` set tbl \<Longrightarrow> fst (ParseFileReferenceKey_values tbl med k ed) = None"
proof (induction tbl arbitrary: med ed)
  case Nil
  show ?case by simp
next
  case (Cons entry tbl)
  obtain vname attribute_name where entry: "entry = (vname, attribute_name)"
    by (cases entry)
  with Cons.prems have a: "attribute_name \<noteq> ''sha1''" and t: "''sha1'' \<notin> snd ` set tbl"
    by auto
  show ?case
  proof (cases "get_value_by_name k vname")
    case None
    with entry Cons.IH [OF t] show ?thesis by simp
  next
    case (Some v)
    obtain x m where m: "GetValueDataAsObject med v = (x, m)"
      by (cases "GetValueDataAsObject med v")
    with entry Some a Cons.IH [OF t] show ?thesis by simp
  qed
qed

lemma ParseFileReferenceKey_values_attribute:
  "a \<notin> snd ` set tbl \<Longrightarrow>
   getattr (fst (snd (ParseFileReferenceKey_values tbl med k ed))) a = getattr ed a"
proof (induction tbl arbitrary: med ed)
  case Nil
  show ?case by simp
next
  case (Cons entry tbl)
  obtain vname attribute_name where entry: "entry = (vname, attribute_name)"
    by (cases entry)
  with Cons.prems have a: "attribute_name \<noteq> a" and t: "a \<notin> snd ` set tbl"
    by auto
  show ?case
  proof (cases "get_value_by_name k vname")
    case None
    with entry Cons.IH [OF t] show ?thesis by simp
  next
    case (Some v)
    obtain x m where m: "GetValueDataAsObject med v = (x, m)"
      by (cases "GetValueDataAsObject med v")
    show ?thesis
    proof (cases "if attribute_name = ''sha1'' then py_startswith x ''0000'' else Inr False")
      case (Inl e)
      with entry Some m show ?thesis by simp
    next
      case (Inr strip)
      with entry Some m a Cons.IH [OF t] show ?thesis
        by (simp add: getattr_setattr_other)
    qed
  qed
qed

lemma ParseFileReferenceKey_values_not_key_visit:
  "\<not> is_key_visit (ev, ed) \<Longrightarrow>
   \<not> is_key_visit (ev, fst (snd (ParseFileReferenceKey_values tbl med k ed)))"
proof (induction tbl arbitrary: med ed)
  case Nil
  then show ?case by simp
next
  case (Cons entry tbl)
  obtain vname attribute_name where entry: "entry = (vname, attribute_name)"
    by (cases entry)
  show ?case
  proof (cases "get_value_by_name k vname")
    case None
    with entry Cons.IH [OF Cons.prems] show ?thesis by simp
  next
    case (Some v)
    obtain x m where m: "GetValueDataAsObject med v = (x, m)"
      by (cases "GetValueDataAsObject med v")
    show ?thesis
    proof (cases "if attribute_name = ''sha1'' then py_startswith x ''0000'' else Inr False")
      case (Inl e)
      with entry Some m Cons.prems show ?thesis by simp
    next
      case (Inr strip)
      with entry Some m Cons.IH [OF setattr_not_key_visit [OF Cons.prems]] show ?thesis
        by simp
    qed
  qed
qed

lemma ParseFileReferenceKey_reference_not_key_visit:
  "\<not> is_key_visit
      (ev, snd (ParseFileReferenceKey_reference new_AMCacheFileEventData name))"
  by (simp add: ParseFileReferenceKey_reference_def new_AMCacheFileEventData_def
      split: sum.splits)

lemma file_event_data_not_key_visit:
  "\<not> is_key_visit (ev, file_event_data med k)"
  unfolding file_event_data_def
  by (rule ParseFileReferenceKey_values_not_key_visit
      [OF ParseFileReferenceKey_reference_not_key_visit])

lemma file_event_data_mediator:
  "file_event_data med k = file_event_data med' k"
  unfolding file_event_data_def
  using ParseFileReferenceKey_values_outcome by blast

lemma FILE_REFERENCE_KEY_VALUES_split:
  "FILE_REFERENCE_KEY_VALUES = butlast FILE_REFERENCE_KEY_VALUES @ [(''101'', ''sha1'')]"
  "''sha1'' \<notin> snd ` set (butlast FILE_REFERENCE_KEY_VALUES)"
  by (simp_all add: FILE_REFERENCE_KEY_VALUES_def)
lemma getattr_setattr_attribute:
  "\<not> is_key_visit (ev, ed) \<Longrightarrow> getattr (setattr ed a v) a = Some v"
  by (cases ed) (simp_all add: update_conv)

lemma py_startswith_text:
  "(\<exists>b. py_startswith x p = Inr b) \<longleftrightarrow> (\<exists>s. x = PyStr s)"
  by (cases x) simp_all

lemma ParseFileReferenceKey_values_sha1:
  "ParseFileReferenceKey_values [(''101'', ''sha1'')] med k ed =
     (case get_value_by_name k ''101'' of
        None \<Rightarrow> (None, ed, med)
      | Some v \<Rightarrow>
          (case py_startswith (fst (GetValueDataAsObject med v)) ''0000'' of
             Inl e \<Rightarrow> (Some e, ed, snd (GetValueDataAsObject med v))
           | Inr strip \<Rightarrow>
               (None,
                setattr ed ''sha1''
                  (if strip then py_slice_from 4 (fst (GetValueDataAsObject med v))
                   else fst (GetValueDataAsObject med v)),
                snd (GetValueDataAsObject med v))))"
proof (cases "get_value_by_name k ''101''")
  case None
  then show ?thesis by simp
next
  case (Some v)
  obtain x m where m: "GetValueDataAsObject med v = (x, m)"
    by (cases "GetValueDataAsObject med v")
  show ?thesis
    using Some m by (cases "py_startswith x ''0000''") simp_all
qed

lemma ParseFileReferenceKey_values_table:
  "ParseFileReferenceKey_values FILE_REFERENCE_KEY_VALUES med k ed =
     ParseFileReferenceKey_values [(''101'', ''sha1'')]
       (snd (snd (ParseFileReferenceKey_values (butlast FILE_REFERENCE_KEY_VALUES) med k ed))) k
       (fst (snd (ParseFileReferenceKey_values (butlast FILE_REFERENCE_KEY_VALUES) med k ed)))"
proof -
  let ?t = "butlast FILE_REFERENCE_KEY_VALUES"
  obtain r ed1 m1 where 1: "ParseFileReferenceKey_values ?t med k ed = (r, ed1, m1)"
    by (cases "ParseFileReferenceKey_values ?t med k ed")
  have "r = None"
    using ParseFileReferenceKey_values_no_sha1 [OF FILE_REFERENCE_KEY_VALUES_split(2), of med k ed] 1
    by simp
  with 1 have "ParseFileReferenceKey_values (?t @ [(''101'', ''sha1'')]) med k ed =
      ParseFileReferenceKey_values [(''101'', ''sha1'')] m1 k ed1"
    by (simp only: ParseFileReferenceKey_values_append) simp
  with 1 FILE_REFERENCE_KEY_VALUES_split(1) show ?thesis
    by simp
qed

lemma ParseFileReferenceKey_values_raises:
  "fst (ParseFileReferenceKey_values FILE_REFERENCE_KEY_VALUES med k ed) = None \<longleftrightarrow>
   sha1_is_text k"
proof -
  let ?t = "butlast FILE_REFERENCE_KEY_VALUES"
  let ?m1 = "snd (snd (ParseFileReferenceKey_values ?t med k ed))"
  let ?ed1 = "fst (snd (ParseFileReferenceKey_values ?t med k ed))"
  show ?thesis
  proof (cases "get_value_by_name k ''101''")
    case None
    then show ?thesis
      by (simp only: ParseFileReferenceKey_values_table ParseFileReferenceKey_values_sha1)
         (simp add: sha1_is_text_def)
  next
    case (Some v)
    have x: "fst (GetValueDataAsObject ?m1 v) = fst (GetValueDataAsObject no_output v)"
      by (rule GetValueDataAsObject_object)
    show ?thesis
      using Some
      by (simp only: ParseFileReferenceKey_values_table ParseFileReferenceKey_values_sha1
            option.case x)
         (cases "fst (GetValueDataAsObject no_output v)"; simp add: sha1_is_text_def)
  qed
qed

lemma file_event_data_sha1:
  assumes "get_value_by_name k ''101'' = Some v"
    and "fst (GetValueDataAsObject med v) = PyStr s"
  shows "getattr (file_event_data med k) ''sha1'' =
    Some (PyStr (if startswith s ''0000'' then drop 4 s else s))"
proof -
  let ?ed0 = "snd (ParseFileReferenceKey_reference new_AMCacheFileEventData (key_name k))"
  let ?t = "butlast FILE_REFERENCE_KEY_VALUES"
  let ?m1 = "snd (snd (ParseFileReferenceKey_values ?t med k ?ed0))"
  let ?ed1 = "fst (snd (ParseFileReferenceKey_values ?t med k ?ed0))"
  have x: "fst (GetValueDataAsObject ?m1 v) = PyStr s"
    using assms(2) GetValueDataAsObject_object [of ?m1 v med] by simp
  have nv: "\<not> is_key_visit (undefined, ?ed1)"
    by (rule ParseFileReferenceKey_values_not_key_visit
        [OF ParseFileReferenceKey_reference_not_key_visit])
  have "file_event_data med k =
      setattr ?ed1 ''sha1'' (PyStr (if startswith s ''0000'' then drop 4 s else s))"
    unfolding file_event_data_def
    using assms(1)
    by (simp only: ParseFileReferenceKey_values_table ParseFileReferenceKey_values_sha1
          option.case x) simp
  then show ?thesis
    by (simp only: getattr_setattr_attribute [OF nv])
qed

lemma ParseFileReferenceKey_result:
  "fst (ParseFileReferenceKey med k) = None \<longleftrightarrow>
     sha1_is_text k \<and> integer_readable k ''17'' \<and> integer_readable k ''12'' \<and>
     integer_readable k ''11'' \<and> integer_readable k ''f''"
  "events (snd (ParseFileReferenceKey med k)) =
     events med @ (if sha1_is_text k then file_time_events k (file_event_data med k) else [])"
proof -
  obtain ed0 where ed0:
    "ParseFileReferenceKey_reference new_AMCacheFileEventData (key_name k) = (None, ed0)"
    using ParseFileReferenceKey_reference_no_exception [of new_AMCacheFileEventData "key_name k"]
    by (cases "ParseFileReferenceKey_reference new_AMCacheFileEventData (key_name k)") simp
  obtain r ed m where m:
    "ParseFileReferenceKey_values FILE_REFERENCE_KEY_VALUES med k ed0 = (r, ed, m)"
    by (cases "ParseFileReferenceKey_values FILE_REFERENCE_KEY_VALUES med k ed0")
  have r: "r = None \<longleftrightarrow> sha1_is_text k"
    using ParseFileReferenceKey_values_raises [of med k ed0] m by simp
  have e: "events m = events med"
    using ParseFileReferenceKey_values_outcome [of FILE_REFERENCE_KEY_VALUES med k ed0 med] m
    by simp
  have ed: "ed = file_event_data med k"
    using ed0 m by (simp add: file_event_data_def)
  show "fst (ParseFileReferenceKey med k) = None \<longleftrightarrow>
     sha1_is_text k \<and> integer_readable k ''17'' \<and> integer_readable k ''12'' \<and>
     integer_readable k ''11'' \<and> integer_readable k ''f''"
    using ed0 m r ParseFileReferenceKey_times_result(1) [of m k ed]
    by (cases r) (simp_all add: ParseFileReferenceKey_def)
  show "events (snd (ParseFileReferenceKey med k)) =
     events med @ (if sha1_is_text k then file_time_events k (file_event_data med k) else [])"
    using ed0 m r e ed ParseFileReferenceKey_times_result(2) [of m k ed]
    by (cases r) (simp_all add: ParseFileReferenceKey_def file_time_events_def)
qed

lemma time_events_length:
  "length (time_events k n clock description ed) \<le> 1"
  "map snd (time_events k n clock description ed) =
     replicate (length (time_events k n clock description ed)) ed"
  by (simp_all add: time_events_def split: option.splits sum.splits)

lemma time_events_present:
  "integer_readable k n \<Longrightarrow>
   length (time_events k n clock description ed) =
     (if get_value_by_name k n = None then 0 else 1)"
  by (simp add: time_events_def integer_readable_def split: option.splits sum.splits)

lemma file_time_events_length:
  "length (file_time_events k ed) \<le> 4"
proof -
  have "length (file_time_events k ed) \<le>
      length (time_events k ''17'' Filetime TIME_DESCRIPTION_MODIFICATION ed) +
      length (time_events k ''12'' Filetime TIME_DESCRIPTION_CREATION ed) +
      length (time_events k ''11'' Filetime TIME_DESCRIPTION_MODIFICATION ed) +
      length (time_events k ''f'' PosixTime TIME_DESCRIPTION_CHANGE ed)"
    by (simp add: file_time_events_def)
  also have "\<dots> \<le> 1 + 1 + 1 + 1"
    by (intro add_mono time_events_length(1))
  finally show ?thesis by simp
qed

lemma file_time_events_data:
  "map snd (file_time_events k ed) = replicate (length (file_time_events k ed)) ed"
  by (simp add: file_time_events_def time_events_length(2) replicate_add [symmetric])
lemma is_key_visit_data:
  "is_key_visit e \<longleftrightarrow> is_key_visit (undefined, snd e)"
  by (cases e; cases "snd e") auto

lemma ParseProgramKey_values_not_key_visit:
  "\<not> is_key_visit (ev, ed) \<Longrightarrow>
   \<not> is_key_visit (ev, fst (ParseProgramKey_values tbl med k ed))"
proof (induction tbl arbitrary: med ed)
  case Nil
  then show ?case by simp
next
  case (Cons entry tbl)
  obtain vname attribute_name where entry: "entry = (vname, attribute_name)"
    by (cases entry)
  show ?case
  proof (cases "get_value_by_name k vname")
    case None
    with entry Cons.IH [OF Cons.prems] show ?thesis by simp
  next
    case (Some v)
    obtain x m where m: "GetValueDataAsObject med v = (x, m)"
      by (cases "GetValueDataAsObject med v")
    with entry Some Cons.IH [OF setattr_not_key_visit [OF Cons.prems]] show ?thesis
      by simp
  qed
qed

lemma program_event_data_not_key_visit:
  "\<not> is_key_visit (ev, program_event_data med k)"
  unfolding program_event_data_def
  by (rule ParseProgramKey_values_not_key_visit) (simp add: new_AMCacheProgramEventData_def)

lemma time_events_data:
  "e \<in> set (time_events k n clock description ed) \<Longrightarrow> snd e = ed"
  by (auto simp add: time_events_def split: option.splits sum.splits)

lemma file_time_events_member:
  "e \<in> set (file_time_events k ed) \<Longrightarrow> snd e = ed"
  by (auto simp add: file_time_events_def dest: time_events_data split: if_splits)

lemma ParseFileReferenceKey_no_key_visit:
  "e \<in> set (events (snd (ParseFileReferenceKey no_output k))) \<Longrightarrow> \<not> is_key_visit e"
proof -
  assume "e \<in> set (events (snd (ParseFileReferenceKey no_output k)))"
  then have "e \<in> set (file_time_events k (file_event_data no_output k))"
    by (simp add: ParseFileReferenceKey_result(2) split: if_splits)
  then have "snd e = file_event_data no_output k"
    by (rule file_time_events_member)
  then show ?thesis
    using file_event_data_not_key_visit [of undefined no_output k]
    by (simp add: is_key_visit_data [of e])
qed

lemma ParseProgramKey_no_key_visit:
  "e \<in> set (events (snd (ParseProgramKey no_output k))) \<Longrightarrow> \<not> is_key_visit e"
proof -
  assume "e \<in> set (events (snd (ParseProgramKey no_output k)))"
  then have "e \<in> set (time_events k ''a'' PosixTime TIME_DESCRIPTION_INSTALLATION
      (program_event_data no_output k))"
    using ParseProgramKey_result [of no_output k] by simp
  then have "snd e = program_event_data no_output k"
    by (rule time_events_data)
  then show ?thesis
    using program_event_data_not_key_visit [of undefined no_output k]
    by (simp add: is_key_visit_data [of e])
qed

lemma for_each_no_key_visit:
  assumes "streams body"
    and "\<And>x e. e \<in> set (events (snd (body no_output x))) \<Longrightarrow> \<not> is_key_visit e"
  shows "e \<in> set (events (snd (for_each body no_output xs))) \<Longrightarrow> \<not> is_key_visit e"
proof (induction xs)
  case Nil
  then show ?case by simp
next
  case (Cons x xs)
  from Cons.prems have "e \<in> set (events no_output @ events (snd (body no_output x)) @
      (if fst (body no_output x) = None then events (snd (for_each body no_output xs)) else []))"
    by (simp only: for_each_Cons_events [OF assms(1)])
  then have "e \<in> set (events (snd (body no_output x))) \<or>
      e \<in> set (events (snd (for_each body no_output xs)))"
    by (auto split: if_splits)
  then show ?case
    using assms(2) Cons.IH by blast
qed

lemma specialized_events_no_key_visit:
  "filter is_key_visit (specialized_events sub_key) = []"
proof -
  have b: "streams (\<lambda>med volume_key. for_each ParseFileReferenceKey med (sub_keys volume_key))"
    using streams_for_each [OF streams_ParseFileReferenceKey] unfolding streams_def by blast
  have inner: "e \<in> set (events (snd (for_each ParseFileReferenceKey no_output (sub_keys vk)))) \<Longrightarrow>
      \<not> is_key_visit e" for e vk
    by (rule for_each_no_key_visit [OF streams_ParseFileReferenceKey ParseFileReferenceKey_no_key_visit])
  have f: "e \<in> set (events (snd (ParseFileKey no_output sub_key))) \<Longrightarrow> \<not> is_key_visit e" for e
    unfolding ParseFileKey_def
    by (rule for_each_no_key_visit [OF b inner])
  have p: "e \<in> set (events (snd (ParseProgramsKey no_output sub_key))) \<Longrightarrow> \<not> is_key_visit e"
    for e
    unfolding ParseProgramsKey_def
    by (rule for_each_no_key_visit [OF streams_ParseProgramKey ParseProgramKey_no_key_visit])
  have "\<forall>e \<in> set (specialized_events sub_key). \<not> is_key_visit e"
    using f p by (simp add: specialized_events_def)
  then show ?thesis
    by (simp only: filter_empty_conv)
qed

lemma visit_events_all_key_visit:
  "filter is_key_visit (visit_events segments k) = visit_events segments k"
  by (simp add: visit_events_def key_visit_event_def filter_map comp_def split_def)

lemma walk_events_key_visits:
  "filter is_key_visit (walk_events root_key) = visit_events ['''', ''Root''] root_key"
proof (cases root_key)
  case (Key n t vs sks)
  have "filter is_key_visit (concat (map (\<lambda>sub_key.
          visit_events ['''', ''Root'', key_name sub_key] sub_key @ specialized_events sub_key) ks)) =
      concat (map (\<lambda>sub_key. visit_events (['''', ''Root''] @ [key_name sub_key]) sub_key) ks)"
    for ks
    by (induction ks)
       (simp_all add: visit_events_all_key_visit specialized_events_no_key_visit)
  then show ?thesis
    using Key
    by (simp add: walk_events_def visit_events_Key key_visit_event_def)
qed

lemma visit_events_paths:
  "map (\<lambda>e. key_path (snd e)) (visit_events segments k) =
   map (\<lambda>(stack, key). py_join [backslash] stack) (preorder segments k)"
  by (simp add: visit_events_def key_visit_event_def comp_def split_def)

lemma visit_events_times:
  "map fst (visit_events segments k) =
   map (\<lambda>(stack, key). DateTimeValuesEvent
          (Filetime (get_last_written_time_as_integer key)) TIME_DESCRIPTION_WRITTEN)
     (preorder segments k)"
  by (simp add: visit_events_def key_visit_event_def comp_def split_def)
lemmas example_defs =
  text_value_def integer_value_def unreadable_text_value_def example_file_key_def
  example_program_key_def example_root_key_def sha1_integer_key_def text_time_key_def
  text_time_program_key_def unreadable_sha1_root_key_def hive_with_root_def
  text_creation_time_key_def

text \<open>
  C3. When the file reference key has the value \<^verbatim>\<open>101\<close> and the value is read as a text,
  the loop over the mapping table returns normally and the \<^verbatim>\<open>sha1\<close> attribute of the event
  data is that text without its first four characters when it starts with \<^verbatim>\<open>0000\<close>, and
  the text unchanged otherwise.
\<close>

theorem C3_sha1_leading_zeros:
  assumes "get_value_by_name k ''101'' = Some v"
    and "fst (GetValueDataAsObject med v) = PyStr s"
  shows "fst (ParseFileReferenceKey_values FILE_REFERENCE_KEY_VALUES med k
            (snd (ParseFileReferenceKey_reference new_AMCacheFileEventData (key_name k)))) = None \<and>
    getattr (file_event_data med k) ''sha1'' =
      Some (PyStr (if startswith s ''0000'' then drop 4 s else s))"
proof -
  have "fst (GetValueDataAsObject no_output v) = PyStr s"
    using assms(2) GetValueDataAsObject_object [of no_output v med] by simp
  with assms(1) have "sha1_is_text k"
    by (simp add: sha1_is_text_def)
  then show ?thesis
    using file_event_data_sha1 [OF assms] ParseFileReferenceKey_values_raises by simp
qed

theorem C3_sha1_leading_zeros_witness:
  "get_value_by_name example_file_key ''101'' = Some (text_value ''101'' ''0000da39a3ee'') \<and>
   fst (GetValueDataAsObject no_output (text_value ''101'' ''0000da39a3ee'')) =
     PyStr ''0000da39a3ee'' \<and>
   getattr (file_event_data no_output example_file_key) ''sha1'' = Some (PyStr ''da39a3ee'')"
proof -
  have 1: "get_value_by_name example_file_key ''101'' = Some (text_value ''101'' ''0000da39a3ee'')"
    by (simp add: get_value_by_name_def example_defs)
  have 2: "fst (GetValueDataAsObject no_output (text_value ''101'' ''0000da39a3ee'')) =
      PyStr ''0000da39a3ee''"
    by (simp add: GetValueDataAsObject_def text_value_def REG_defs)
  show ?thesis
    using 1 2 C3_sha1_leading_zeros [OF 1 2] by (simp add: startswith_def)
qed

text \<open>
  C6 (as amended). A program key yields exactly one event, an installation event in POSIX
  time that carries the event data object of the key, when the value \<^verbatim>\<open>a\<close> is present and
  its integer can be read; it yields no event when the value is absent or its read faults.
  Parsing the key returns normally exactly when the value is absent or readable.
\<close>

theorem C6_program_entry_event:
  "events (snd (ParseProgramKey med k)) =
     events med @
     (case get_value_by_name k ''a'' of
        None \<Rightarrow> []
      | Some installation_time_value \<Rightarrow>
          (case get_data_as_integer installation_time_value of
             Inl fault \<Rightarrow> []
           | Inr timestamp \<Rightarrow>
               [(DateTimeValuesEvent (PosixTime timestamp) TIME_DESCRIPTION_INSTALLATION,
                 program_event_data med k)])) \<and>
   (fst (ParseProgramKey med k) = None) = integer_readable k ''a''"
  using ParseProgramKey_result [of med k]
    produce_time_event_None [of no_output k "''a''" PosixTime TIME_DESCRIPTION_INSTALLATION
      "program_event_data med k"]
  by (simp add: time_events_def)

theorem C6_program_entry_event_witness:
  "events (snd (ParseProgramKey no_output example_program_key)) =
     [(DateTimeValuesEvent (PosixTime 9) TIME_DESCRIPTION_INSTALLATION,
       program_event_data no_output example_program_key)] \<and>
   fst (ParseProgramKey no_output example_program_key) = None \<and>
   events (snd (ParseProgramKey no_output (Key ''0006a1b2'' 40 [text_value ''0'' ''Tool''] []))) = []"
  using C6_program_entry_event [of no_output example_program_key]
    C6_program_entry_event [of no_output "Key ''0006a1b2'' 40 [text_value ''0'' ''Tool''] []"]
  by (simp add: get_value_by_name_def integer_readable_def example_defs)

text \<open>
  C6 as the specification states it fails: a program key whose installation time is stored
  as text has the value \<^verbatim>\<open>a\<close>, and parsing it yields no event.
\<close>

theorem C6_present_value_without_event_counterexample:
  "get_value_by_name text_time_program_key ''a'' = Some (text_value ''a'' ''2019'') \<and>
   events (snd (ParseProgramKey no_output text_time_program_key)) = [] \<and>
   fst (ParseProgramKey no_output text_time_program_key) =
     Some (Raised (IOError ''unsupported integer value type''))"
  by code_simp
lemma ParseFileReferenceKey_sha1_exception:
  assumes "get_value_by_name k ''101'' = Some v"
    and "py_startswith (fst (GetValueDataAsObject no_output v)) ''0000'' = Inl e"
  shows "fst (ParseFileReferenceKey med k) = Some e"
proof -
  obtain ed0 where ed0:
    "ParseFileReferenceKey_reference new_AMCacheFileEventData (key_name k) = (None, ed0)"
    using ParseFileReferenceKey_reference_no_exception [of new_AMCacheFileEventData "key_name k"]
    by (cases "ParseFileReferenceKey_reference new_AMCacheFileEventData (key_name k)") simp
  let ?m1 = "snd (snd (ParseFileReferenceKey_values (butlast FILE_REFERENCE_KEY_VALUES) med k ed0))"
  have x: "fst (GetValueDataAsObject ?m1 v) = fst (GetValueDataAsObject no_output v)"
    by (rule GetValueDataAsObject_object)
  have "fst (ParseFileReferenceKey_values FILE_REFERENCE_KEY_VALUES med k ed0) = Some e"
    using assms(1)
    by (simp only: ParseFileReferenceKey_values_table ParseFileReferenceKey_values_sha1
          option.case x assms(2) sum.case fst_conv)
  then show ?thesis
    using ed0
    by (cases "ParseFileReferenceKey_values FILE_REFERENCE_KEY_VALUES med k ed0")
       (simp add: ParseFileReferenceKey_def)
qed

lemma ParseFileReferenceKey_time_fault:
  assumes "sha1_is_text k"
    and "get_value_by_name k ''17'' = Some v"
    and "get_data_as_integer v = Inl fault"
  shows "fst (ParseFileReferenceKey med k) = Some (Raised fault)"
proof -
  obtain ed0 where ed0:
    "ParseFileReferenceKey_reference new_AMCacheFileEventData (key_name k) = (None, ed0)"
    using ParseFileReferenceKey_reference_no_exception [of new_AMCacheFileEventData "key_name k"]
    by (cases "ParseFileReferenceKey_reference new_AMCacheFileEventData (key_name k)") simp
  obtain r ed m where m:
    "ParseFileReferenceKey_values FILE_REFERENCE_KEY_VALUES med k ed0 = (r, ed, m)"
    by (cases "ParseFileReferenceKey_values FILE_REFERENCE_KEY_VALUES med k ed0")
  have r: "r = None"
    using ParseFileReferenceKey_values_raises [of med k ed0] m assms(1) by simp
  have "fst (ParseFileReferenceKey_times m k ed) = Some (Raised fault)"
    using assms(2,3)
    by (simp add: ParseFileReferenceKey_times_def and_then_def produce_time_event_def AMCACHE_defs)
  with ed0 m r show ?thesis
    by (simp add: ParseFileReferenceKey_def)
qed

lemma ParseFileReferenceKey_creation_time_fault:
  assumes "sha1_is_text k"
    and "get_value_by_name k ''17'' = Some u"
    and "get_data_as_integer u = Inr timestamp"
    and "get_value_by_name k ''12'' = Some v"
    and "get_data_as_integer v = Inl fault"
  shows "fst (ParseFileReferenceKey med k) = Some (Raised fault)"
proof -
  obtain ed0 where ed0:
    "ParseFileReferenceKey_reference new_AMCacheFileEventData (key_name k) = (None, ed0)"
    using ParseFileReferenceKey_reference_no_exception [of new_AMCacheFileEventData "key_name k"]
    by (cases "ParseFileReferenceKey_reference new_AMCacheFileEventData (key_name k)") simp
  obtain r ed m where m:
    "ParseFileReferenceKey_values FILE_REFERENCE_KEY_VALUES med k ed0 = (r, ed, m)"
    by (cases "ParseFileReferenceKey_values FILE_REFERENCE_KEY_VALUES med k ed0")
  have r: "r = None"
    using ParseFileReferenceKey_values_raises [of med k ed0] m assms(1) by simp
  have "fst (ParseFileReferenceKey_times m k ed) = Some (Raised fault)"
    using assms(2-5)
    by (simp add: ParseFileReferenceKey_times_def and_then_def produce_time_event_def AMCACHE_defs)
  with ed0 m r show ?thesis
    by (simp add: ParseFileReferenceKey_def)
qed

text \<open>
  C5 at three keys on which the code does not do what the claim says. A key whose SHA-1
  value is stored as an integer has the value \<^verbatim>\<open>17\<close> with a readable integer: parsing it
  raises AttributeError at \<^verbatim>\<open>startswith\<close> and yields no event. A key whose value \<^verbatim>\<open>17\<close> is
  stored as text has the value \<^verbatim>\<open>12\<close> with a readable integer: parsing it raises the fault
  of the read of \<^verbatim>\<open>17\<close> and yields no event. A key whose value \<^verbatim>\<open>17\<close> is a readable
  integer and whose value \<^verbatim>\<open>12\<close> is stored as text yields the modification event of \<^verbatim>\<open>17\<close>,
  and then parsing it raises the fault of the read of \<^verbatim>\<open>12\<close>.
\<close>

theorem C5_present_value_without_event:
  "get_value_by_name sha1_integer_key ''17'' =
     Some (integer_value ''17'' REG_QWORD
       [CHR 0x05, CHR 0x00, CHR 0x00, CHR 0x00, CHR 0x00, CHR 0x00, CHR 0x00, CHR 0x00] 5) \<and>
   fst (ParseFileReferenceKey no_output sha1_integer_key) = Some AttributeError \<and>
   events (snd (ParseFileReferenceKey no_output sha1_integer_key)) = [] \<and>
   get_value_by_name text_time_key ''12'' =
     Some (integer_value ''12'' REG_QWORD
       [CHR 0x06, CHR 0x00, CHR 0x00, CHR 0x00, CHR 0x00, CHR 0x00, CHR 0x00, CHR 0x00] 6) \<and>
   fst (ParseFileReferenceKey no_output text_time_key) =
     Some (Raised (IOError ''unsupported integer value type'')) \<and>
   events (snd (ParseFileReferenceKey no_output text_time_key)) = [] \<and>
   fst (ParseFileReferenceKey no_output text_creation_time_key) =
     Some (Raised (IOError ''unsupported integer value type'')) \<and>
   map fst (events (snd (ParseFileReferenceKey no_output text_creation_time_key))) =
     [DateTimeValuesEvent (Filetime 5) TIME_DESCRIPTION_MODIFICATION]"
proof -
  have v: "get_value_by_name sha1_integer_key ''101'' =
      Some (integer_value ''101'' REG_DWORD [CHR 0x05, CHR 0x00, CHR 0x00, CHR 0x00] 5)"
    by (simp add: get_value_by_name_def example_defs)
  have x: "py_startswith (fst (GetValueDataAsObject no_output
      (integer_value ''101'' REG_DWORD [CHR 0x05, CHR 0x00, CHR 0x00, CHR 0x00] 5))) ''0000'' =
      Inl AttributeError"
    by (simp add: GetValueDataAsObject_def integer_value_def REG_defs)
  have ns: "\<not> sha1_is_text sha1_integer_key"
    using v by (simp add: sha1_is_text_def GetValueDataAsObject_def integer_value_def REG_defs)
  have 1: "get_value_by_name sha1_integer_key ''17'' =
     Some (integer_value ''17'' REG_QWORD
       [CHR 0x05, CHR 0x00, CHR 0x00, CHR 0x00, CHR 0x00, CHR 0x00, CHR 0x00, CHR 0x00] 5)"
    by (simp add: get_value_by_name_def example_defs)
  have 2: "fst (ParseFileReferenceKey no_output sha1_integer_key) = Some AttributeError"
    by (rule ParseFileReferenceKey_sha1_exception [OF v x])
  have 3: "events (snd (ParseFileReferenceKey no_output sha1_integer_key)) = []"
    using ns by (simp add: ParseFileReferenceKey_result(2))
  have t: "sha1_is_text text_time_key"
    by (simp add: sha1_is_text_def get_value_by_name_def example_defs)
  have w: "get_value_by_name text_time_key ''17'' = Some (text_value ''17'' ''2019'')"
    by (simp add: get_value_by_name_def example_defs)
  have 4: "get_value_by_name text_time_key ''12'' =
     Some (integer_value ''12'' REG_QWORD
       [CHR 0x06, CHR 0x00, CHR 0x00, CHR 0x00, CHR 0x00, CHR 0x00, CHR 0x00, CHR 0x00] 6)"
    by (simp add: get_value_by_name_def example_defs)
  have 5: "fst (ParseFileReferenceKey no_output text_time_key) =
     Some (Raised (IOError ''unsupported integer value type''))"
    by (rule ParseFileReferenceKey_time_fault [OF t w]) (simp add: text_value_def)
  have 6: "events (snd (ParseFileReferenceKey no_output text_time_key)) = []"
    using t w
    by (simp add: ParseFileReferenceKey_result(2) file_time_events_def time_events_def
        integer_readable_def text_value_def)
  have c: "sha1_is_text text_creation_time_key"
    by (simp add: sha1_is_text_def get_value_by_name_def example_defs)
  have u: "get_value_by_name text_creation_time_key ''17'' =
     Some (integer_value ''17'' REG_QWORD
       [CHR 0x05, CHR 0x00, CHR 0x00, CHR 0x00, CHR 0x00, CHR 0x00, CHR 0x00, CHR 0x00] 5)"
    by (simp add: get_value_by_name_def example_defs)
  have y: "get_value_by_name text_creation_time_key ''12'' = Some (text_value ''12'' ''2019'')"
    by (simp add: get_value_by_name_def example_defs)
  have 7: "fst (ParseFileReferenceKey no_output text_creation_time_key) =
     Some (Raised (IOError ''unsupported integer value type''))"
    by (rule ParseFileReferenceKey_creation_time_fault [OF c u _ y])
       (simp_all add: integer_value_def text_value_def)
  have 8: "map fst (events (snd (ParseFileReferenceKey no_output text_creation_time_key))) =
     [DateTimeValuesEvent (Filetime 5) TIME_DESCRIPTION_MODIFICATION]"
    using c u y
    by (simp add: ParseFileReferenceKey_result(2) file_time_events_def time_events_def
        integer_readable_def text_value_def integer_value_def no_output_def)
  from 1 2 3 4 5 6 7 8 show ?thesis by (intro conjI)
qed
text \<open>
  C10. Producing the generic event of a key always returns normally and adds exactly one
  event: its time is the last written time of the key as a FILETIME and its description is
  the written time. So it is for every key that the walk of a sub tree visits, whatever
  the specialized handling of the key does afterwards.
\<close>

theorem C10_key_visit_written_time:
  "fst (ProduceDefaultWindowsRegistryEvent med k path names_to_skip) = None \<and>
   events (snd (ProduceDefaultWindowsRegistryEvent med k path names_to_skip)) =
     events med @
     [(DateTimeValuesEvent (Filetime (get_last_written_time_as_integer k)) TIME_DESCRIPTION_WRITTEN,
       WindowsRegistryEventData path (summary_of_key k names_to_skip))] \<and>
   events (snd (snd (ParseSubKey med k segments))) = events med @ visit_events segments k \<and>
   map fst (visit_events segments k) =
     map (\<lambda>(stack, key). DateTimeValuesEvent
            (Filetime (get_last_written_time_as_integer key)) TIME_DESCRIPTION_WRITTEN)
       (preorder segments k)"
  using ProduceDefaultWindowsRegistryEvent_result [of med k path names_to_skip]
    ParseSubKey_walk(1) [of med k segments] visit_events_times [of segments k]
  by (intro conjI) simp_all

theorem C10_key_visit_written_time_witness:
  "map fst (events (snd (snd (ParseSubKey no_output
      (Key ''File'' 20 [] [Key ''vol1'' 25 [] [example_file_key]]) ['''', ''Root'', ''File'']))))
   = [DateTimeValuesEvent (Filetime 20) TIME_DESCRIPTION_WRITTEN,
      DateTimeValuesEvent (Filetime 25) TIME_DESCRIPTION_WRITTEN,
      DateTimeValuesEvent (Filetime 30) TIME_DESCRIPTION_WRITTEN]"
  using C10_key_visit_written_time
    [of no_output "Key ''File'' 20 [] [Key ''vol1'' 25 [] [example_file_key]]" "[]" None
      "['''', ''Root'', ''File'']"]
  by (simp add: example_file_key_def)
lemma ParseRootKey_loop_abort:
  assumes "(if key_name sub_key = ''File'' then ParseFileKey no_output sub_key
            else if key_name sub_key = ''Programs'' then ParseProgramsKey no_output sub_key
            else (None, no_output)) = (Some e, m0)"
  shows "fst (ParseRootKey_loop med (sub_key # rest) segments) = Some e \<and>
    events (snd (ParseRootKey_loop med (sub_key # rest) segments)) =
      events med @ visit_events (segments @ [key_name sub_key]) sub_key @
      specialized_events sub_key"
proof -
  obtain m where m: "ParseSubKey med sub_key (segments @ [key_name sub_key]) =
      (None, segments @ [key_name sub_key], m)"
    using ParseSubKey_walk(1) [of med sub_key "segments @ [key_name sub_key]"]
    by (cases "ParseSubKey med sub_key (segments @ [key_name sub_key])") auto
  have e: "events m = events med @ visit_events (segments @ [key_name sub_key]) sub_key"
    using ParseSubKey_walk(1) [of med sub_key "segments @ [key_name sub_key]"] m by simp
  obtain r m2 where m2:
    "(if key_name sub_key = ''File'' then ParseFileKey m sub_key
      else if key_name sub_key = ''Programs'' then ParseProgramsKey m sub_key
      else (None, m)) = (r, m2)"
    by (cases "if key_name sub_key = ''File'' then ParseFileKey m sub_key
      else if key_name sub_key = ''Programs'' then ParseProgramsKey m sub_key
      else (None, m)")
  have r: "r = Some e"
    using assms m2 streamsD(1) [OF streams_ParseFileKey, of m sub_key]
      streamsD(1) [OF streams_ParseProgramsKey, of m sub_key]
    by (auto split: if_splits)
  have e2: "events m2 = events m @ specialized_events sub_key"
    by (rule specialized_handling_events [OF m2])
  have "ParseRootKey_loop med (sub_key # rest) segments = (Some e, m2)"
    using ParseRootKey_loop_Cons [OF m m2, of rest] r
    by (simp del: ParseRootKey_loop.simps)
  then show ?thesis
    using e e2 by (simp del: ParseRootKey_loop.simps)
qed

lemma unreadable_sha1_file_key:
  "fst (ParseFileReferenceKey med
      (Key ''e00001234'' 30 [unreadable_text_value ''101'' ''0000da39a3ee''] [])) =
     Some AttributeError \<and>
   events (snd (ParseFileReferenceKey med
      (Key ''e00001234'' 30 [unreadable_text_value ''101'' ''0000da39a3ee''] []))) = events med"
proof -
  let ?k = "Key ''e00001234'' 30 [unreadable_text_value ''101'' ''0000da39a3ee''] []"
  have v: "get_value_by_name ?k ''101'' = Some (unreadable_text_value ''101'' ''0000da39a3ee'')"
    by (simp add: get_value_by_name_def unreadable_text_value_def)
  have x: "fst (GetValueDataAsObject no_output (unreadable_text_value ''101'' ''0000da39a3ee'')) =
      PyNone"
    by (simp add: GetValueDataAsObject_def unreadable_text_value_def REG_defs)
  have s: "py_startswith (fst (GetValueDataAsObject no_output
      (unreadable_text_value ''101'' ''0000da39a3ee''))) ''0000'' = Inl AttributeError"
    by (simp only: x py_startswith.simps)
  have ns: "\<not> sha1_is_text ?k"
    by (simp add: sha1_is_text_def v x)
  show ?thesis
    using ParseFileReferenceKey_sha1_exception [OF v s, of med] ns
    by (simp add: ParseFileReferenceKey_result(2))
qed

lemma unreadable_sha1_File_key:
  "fst (ParseFileKey no_output (Key ''File'' 20 []
      [Key ''vol1'' 25 []
         [Key ''e00001234'' 30 [unreadable_text_value ''101'' ''0000da39a3ee''] []]])) =
     Some AttributeError \<and>
   events (snd (ParseFileKey no_output (Key ''File'' 20 []
      [Key ''vol1'' 25 []
         [Key ''e00001234'' 30 [unreadable_text_value ''101'' ''0000da39a3ee''] []]]))) = []"
proof -
  let ?k = "Key ''e00001234'' 30 [unreadable_text_value ''101'' ''0000da39a3ee''] []"
  obtain m where m: "ParseFileReferenceKey no_output ?k = (Some AttributeError, m)"
    using unreadable_sha1_file_key [of no_output]
    by (cases "ParseFileReferenceKey no_output ?k") simp
  have "events m = []"
    using unreadable_sha1_file_key [of no_output] m by simp
  with m show ?thesis
    by (simp add: ParseFileKey_def)
qed
lemma unreadable_sha1_walk:
  "fst (ParseRootKey med unreadable_sha1_root_key) = Some AttributeError \<and>
   events (snd (ParseRootKey med unreadable_sha1_root_key)) =
     events med @
     visit_events ['''', ''Root'']
       (Key ''Root'' 10 []
          [Key ''File'' 20 []
             [Key ''vol1'' 25 []
                [Key ''e00001234'' 30 [unreadable_text_value ''101'' ''0000da39a3ee''] []]]])"
proof -
  let ?fk = "Key ''File'' 20 []
      [Key ''vol1'' 25 []
         [Key ''e00001234'' 30 [unreadable_text_value ''101'' ''0000da39a3ee''] []]]"
  let ?p = "ProduceDefaultWindowsRegistryEvent med unreadable_sha1_root_key
      (backslash # ''Root'') None"
  obtain m where m: "?p = (None, m)"
    using ProduceDefaultWindowsRegistryEvent_result
      [of med unreadable_sha1_root_key "backslash # ''Root''" None]
    by (cases ?p) simp
  have e: "events m = events med @ [key_visit_event (backslash # ''Root'') unreadable_sha1_root_key]"
    using ProduceDefaultWindowsRegistryEvent_result
      [of med unreadable_sha1_root_key "backslash # ''Root''" None] m
    by (simp add: key_visit_event_def)
  obtain m0 where m0: "ParseFileKey no_output ?fk = (Some AttributeError, m0)"
    using unreadable_sha1_File_key by (cases "ParseFileKey no_output ?fk") simp
  have s: "specialized_events ?fk = []"
    using unreadable_sha1_File_key by (simp add: specialized_events_def)
  have h: "(if key_name ?fk = ''File'' then ParseFileKey no_output ?fk
            else if key_name ?fk = ''Programs'' then ParseProgramsKey no_output ?fk
            else (None, no_output)) = (Some AttributeError, m0)"
    using m0 by simp
  have sk: "sub_keys unreadable_sha1_root_key = [?fk, Key ''Programs'' 35 [] [example_program_key]]"
    by (simp add: unreadable_sha1_root_key_def)
  have loop: "fst (ParseRootKey_loop m (sub_keys unreadable_sha1_root_key) ['''', ''Root'']) =
        Some AttributeError \<and>
      events (snd (ParseRootKey_loop m (sub_keys unreadable_sha1_root_key) ['''', ''Root''])) =
        events m @ visit_events (['''', ''Root''] @ [key_name ?fk]) ?fk @ specialized_events ?fk"
    unfolding sk by (rule ParseRootKey_loop_abort [OF h])
  have root: "ParseRootKey med unreadable_sha1_root_key =
      ParseRootKey_loop m (sub_keys unreadable_sha1_root_key) ['''', ''Root'']"
    using m by (simp add: ParseRootKey_def)
  have summary: "summary_of_key unreadable_sha1_root_key None =
      summary_of_key (Key ''Root'' 10 [] [?fk]) None"
    by (simp add: summary_of_key_def GetValuesFromKey_def unreadable_sha1_root_key_def)
  have v: "visit_events ['''', ''Root''] (Key ''Root'' 10 [] [?fk]) =
      key_visit_event (backslash # ''Root'') unreadable_sha1_root_key #
      visit_events (['''', ''Root''] @ [key_name ?fk]) ?fk"
    using summary
    by (simp add: visit_events_Key [of _ "''Root''"] key_visit_event_def
        unreadable_sha1_root_key_def)
  show ?thesis
    using loop by (simp only: root e s v append_Nil2 append_assoc append_Cons append_Nil simp_thms)
qed

text \<open>
  C1 at a hive on which the code does not do what the claim says. The SHA-1 value of the
  one file reference key cannot be read: \<^verbatim>\<open>_GetValueDataAsObject\<close> catches the fault, warns
  and returns None, and \<^verbatim>\<open>_ParseFileReferenceKey\<close> then calls \<^verbatim>\<open>startswith\<close> on None. The
  AttributeError leaves \<^verbatim>\<open>ParseFileObject\<close>, and the events are the generic events of the
  Root key and of the File sub tree only: the Programs key, a sibling of the File key, is
  never processed.
\<close>

theorem C1_fault_aborts_traversal:
  "fst (ParseFileObject no_output (hive_with_root unreadable_sha1_root_key)) =
     Some AttributeError \<and>
   events (snd (ParseFileObject no_output (hive_with_root unreadable_sha1_root_key))) =
     visit_events ['''', ''Root'']
       (Key ''Root'' 10 []
          [Key ''File'' 20 []
             [Key ''vol1'' 25 []
                [Key ''e00001234'' 30 [unreadable_text_value ''101'' ''0000da39a3ee''] []]]])"
proof -
  have "ParseFileObject no_output (hive_with_root unreadable_sha1_root_key) =
      ParseRootKey no_output unreadable_sha1_root_key"
    by (simp add: ParseFileObject_def hive_with_root_def)
  then show ?thesis
    using unreadable_sha1_walk [of no_output] by simp
qed

text \<open>
  C9 at the same hive. The tree has six keys; the walk is ended by the AttributeError of
  the file reference key and produces the generic events of four of them: the Programs key
  and the program key below it yield no generic event.
\<close>

theorem C9_keys_without_visit_event:
  "map (\<lambda>(stack, key). py_join [backslash] stack)
     (preorder ['''', ''Root''] unreadable_sha1_root_key) =
     [py_join [backslash] ['''', ''Root''],
      py_join [backslash] ['''', ''Root'', ''File''],
      py_join [backslash] ['''', ''Root'', ''File'', ''vol1''],
      py_join [backslash] ['''', ''Root'', ''File'', ''vol1'', ''e00001234''],
      py_join [backslash] ['''', ''Root'', ''Programs''],
      py_join [backslash] ['''', ''Root'', ''Programs'', ''0006a1b2'']] \<and>
   map (\<lambda>e. key_path (snd e))
     (events (snd (ParseRootKey no_output unreadable_sha1_root_key))) =
     [py_join [backslash] ['''', ''Root''],
      py_join [backslash] ['''', ''Root'', ''File''],
      py_join [backslash] ['''', ''Root'', ''File'', ''vol1''],
      py_join [backslash] ['''', ''Root'', ''File'', ''vol1'', ''e00001234'']]"
proof -
  have 1: "map (\<lambda>(stack, key). py_join [backslash] stack)
     (preorder ['''', ''Root''] unreadable_sha1_root_key) =
     [py_join [backslash] ['''', ''Root''],
      py_join [backslash] ['''', ''Root'', ''File''],
      py_join [backslash] ['''', ''Root'', ''File'', ''vol1''],
      py_join [backslash] ['''', ''Root'', ''File'', ''vol1'', ''e00001234''],
      py_join [backslash] ['''', ''Root'', ''Programs''],
      py_join [backslash] ['''', ''Root'', ''Programs'', ''0006a1b2'']]"
    by (simp add: unreadable_sha1_root_key_def example_program_key_def)
  have 2: "map (\<lambda>e. key_path (snd e))
     (events (snd (ParseRootKey no_output unreadable_sha1_root_key))) =
     [py_join [backslash] ['''', ''Root''],
      py_join [backslash] ['''', ''Root'', ''File''],
      py_join [backslash] ['''', ''Root'', ''File'', ''vol1''],
      py_join [backslash] ['''', ''Root'', ''File'', ''vol1'', ''e00001234'']]"
    using unreadable_sha1_walk [of no_output]
    by (simp add: visit_events_paths)
  from 1 2 show ?thesis by (intro conjI)
qed
lemma split_first_from_contains:
  "sep \<noteq> [] \<Longrightarrow> (split_first_from sep cur s = None) = (\<not> py_contains s sep)"
  by (induction s arbitrary: cur) simp_all

lemma split_from_first_None:
  "sep \<noteq> [] \<Longrightarrow> split_first_from sep cur s = None \<Longrightarrow> split_from sep cur s = [cur @ s]"
  by (induction s arbitrary: cur) (simp_all split: if_splits)

lemma drop_separator:
  "sep \<noteq> [] \<Longrightarrow> drop (length sep - 1) s = drop (length sep) (c # s)"
  by (cases sep) simp_all

lemma split_from_not_Nil:
  "split_from sep cur s \<noteq> []"
  by (induction s arbitrary: cur) simp_all

lemma split_from_first_Some:
  "sep \<noteq> [] \<Longrightarrow> split_first_from sep cur s = Some (a, b) \<Longrightarrow>
   split_from sep cur s = a # split_from sep [] b"
proof (induction s arbitrary: cur)
  case Nil
  then show ?case by simp
next
  case (Cons c s)
  show ?case
  proof (cases "startswith (c # s) sep")
    case True
    then have "a = cur" and "b = drop (length sep) (c # s)"
      using Cons.prems(2) by simp_all
    then show ?thesis
      using True drop_separator [OF Cons.prems(1), of s c] by simp
  next
    case False
    then have "split_first_from sep (cur @ [c]) s = Some (a, b)"
      using Cons.prems(2) by simp
    then have "split_from sep (cur @ [c]) s = a # split_from sep [] b"
      using Cons.prems(1) by (rule Cons.IH [rotated])
    then show ?thesis using False by simp
  qed
qed

lemma split_from_two_parts:
  assumes "sep \<noteq> []" and "split_first_from sep [] s = Some (a, b)"
  shows "split_from sep [] s = (if py_contains b sep then a # split_from sep [] b else [a, b])"
    and "py_contains b sep \<Longrightarrow> length (split_from sep [] s) \<ge> 3"
proof -
  have 1: "split_from sep [] s = a # split_from sep [] b"
    using assms by (rule split_from_first_Some)
  show "split_from sep [] s = (if py_contains b sep then a # split_from sep [] b else [a, b])"
  proof (cases "py_contains b sep")
    case True
    then show ?thesis using 1 by simp
  next
    case False
    then have "split_first_from sep [] b = None"
      using assms(1) by (simp add: split_first_from_contains)
    then have "split_from sep [] b = [[] @ b]"
      using assms(1) by (rule split_from_first_None [rotated])
    then show ?thesis using 1 False by simp
  qed
  show "length (split_from sep [] s) \<ge> 3" if c: "py_contains b sep"
  proof -
    obtain a' b' where "split_first_from sep [] b = Some (a', b')"
      using c assms(1) split_first_from_contains [of sep "[]" b]
      by (cases "split_first_from sep [] b") auto
    then have "split_from sep [] b = a' # split_from sep [] b'"
      using assms(1) by (rule split_from_first_Some [rotated])
    moreover have "split_from sep [] b' \<noteq> []"
      by (rule split_from_not_Nil)
    ultimately show ?thesis
      using 1 by (cases "split_from sep [] b'") simp_all
  qed
qed
lemma file_reference_of_name_first_split:
  "file_reference_of_name name =
     (case (if occurs_again name ''0000'' then None else first_split_reference name) of
        None \<Rightarrow> Inl ValueError
      | Some r \<Rightarrow> Inr r)"
proof (cases "py_contains name ''0000''")
  case False
  then have "occurs_again name ''0000'' = False"
    using split_first_from_contains [of "''0000''" "[]" name]
    by (simp add: occurs_again_def split_first_def)
  then show ?thesis
    using False
    by (auto simp add: file_reference_of_name_def first_split_reference_def
        split: sum.splits dest: py_int16_exception)
next
  case True
  then obtain a b where ab: "split_first_from ''0000'' [] name = Some (a, b)"
    using split_first_from_contains [of "''0000''" "[]" name]
    by (cases "split_first_from ''0000'' [] name") auto
  have again: "occurs_again name ''0000'' = py_contains b ''0000''"
    using ab by (simp add: occurs_again_def split_first_def)
  show ?thesis
  proof (cases "py_contains b ''0000''")
    case c: True
    have "length (split_from ''0000'' [] name) \<ge> 3"
      using split_from_two_parts(2) [OF _ ab c] by simp
    then have "(case split_from ''0000'' [] name of
        [sequence_number, mft_entry] \<Rightarrow>
          (case py_int16 mft_entry of
             Inl e \<Rightarrow> Inl e
           | Inr m \<Rightarrow>
               (case py_int16 sequence_number of
                  Inl e \<Rightarrow> Inl e
                | Inr q \<Rightarrow> Inr (format_d m @ ''-'' @ format_d q)))
      | _ \<Rightarrow> Inl ValueError) = Inl ValueError"
      by (auto split: list.splits)
    then show ?thesis
      using True c again by (simp add: file_reference_of_name_def py_split_def)
  next
    case c: False
    have "split_from ''0000'' [] name = [a, b]"
      using split_from_two_parts(1) [OF _ ab] c by simp
    then show ?thesis
      using True c again ab
      by (auto simp add: file_reference_of_name_def py_split_def first_split_reference_def
          split_first_def split: sum.splits dest: py_int16_exception)
  qed
qed

lemma file_event_data_file_reference:
  "getattr (file_event_data med k) ''file_reference'' =
     getattr (snd (ParseFileReferenceKey_reference new_AMCacheFileEventData (key_name k)))
       ''file_reference''"
proof -
  have "''file_reference'' \<notin> snd ` set FILE_REFERENCE_KEY_VALUES"
    by (simp add: FILE_REFERENCE_KEY_VALUES_def)
  then show ?thesis
    unfolding file_event_data_def by (rule ParseFileReferenceKey_values_attribute)
qed

lemma ParseFileReferenceKey_no_values:
  "ParseFileReferenceKey med (Key name t [] subs) = (None, med)"
proof -
  have v: "ParseFileReferenceKey_values tbl med (Key name t [] subs) ed = (None, ed, med)"
    for tbl ed
    by (induction tbl arbitrary: ed) (auto simp add: get_value_by_name_def)
  have t: "ParseFileReferenceKey_times med (Key name t [] subs) ed = (None, med)" for ed
    by (simp add: ParseFileReferenceKey_times_def produce_time_event_def and_then_def
        get_value_by_name_def)
  obtain ed where "ParseFileReferenceKey_reference new_AMCacheFileEventData name = (None, ed)"
    using ParseFileReferenceKey_reference_no_exception [of new_AMCacheFileEventData name]
    by (cases "ParseFileReferenceKey_reference new_AMCacheFileEventData name") simp
  then show ?thesis
    by (simp add: ParseFileReferenceKey_def v t)
qed

text \<open>
  C2 at a key name in which \<^verbatim>\<open>0000\<close> occurs twice. Split at the first occurrence the
  name \<^verbatim>\<open>e000000001234\<close> is the sequence number \<^verbatim>\<open>e\<close> and the MFT entry \<^verbatim>\<open>00001234\<close>, and
  the file reference would be \<^verbatim>\<open>4660-14\<close>. The code splits at every occurrence, the three
  parts do not unpack into two variables, and the file reference stays unset.
\<close>

theorem C2_second_occurrence_counterexample:
  "py_contains ''e000000001234'' ''0000'' \<and>
   first_split_reference ''e000000001234'' = Some ''4660-14'' \<and>
   py_split ''e000000001234'' ''0000'' = Inr [''e'', '''', ''1234''] \<and>
   ParseFileReferenceKey_reference new_AMCacheFileEventData ''e000000001234'' =
     (None, new_AMCacheFileEventData) \<and>
   getattr (file_event_data no_output (Key ''e000000001234'' 30 [] [])) ''file_reference'' =
     Some PyNone"
proof -
  have 1: "py_contains ''e000000001234'' ''0000''"
    by (simp add: startswith_def)
  have 2: "first_split_reference ''e000000001234'' = Some ''4660-14''"
    by (simp add: first_split_reference_def split_first_def startswith_def py_int16_def
        py_isspace_def strip_sign_def strip_hex_prefix_def hex_digit_value_def hex_value_def
        format_d_def digit_char_def)
  have 3: "py_split ''e000000001234'' ''0000'' = Inr [''e'', '''', ''1234'']"
    by (simp add: py_split_def startswith_def)
  have 4: "ParseFileReferenceKey_reference new_AMCacheFileEventData ''e000000001234'' =
     (None, new_AMCacheFileEventData)"
    by (simp add: ParseFileReferenceKey_reference_def file_reference_of_name_def py_split_def
        startswith_def)
  have 5: "getattr (file_event_data no_output (Key ''e000000001234'' 30 [] [])) ''file_reference'' =
     Some PyNone"
    using 4 by (simp add: file_event_data_file_reference new_AMCacheFileEventData_def)
  from 1 2 3 4 5 show ?thesis by (intro conjI)
qed

text \<open>
  C2 as the code has it. The file reference that \<^verbatim>\<open>_ParseFileReferenceKey\<close> assigns is the
  one of section 4.4, from the split at the first occurrence of \<^verbatim>\<open>0000\<close>, unless \<^verbatim>\<open>0000\<close>
  occurs again after the first occurrence: then, as when a number cannot be parsed, the
  attribute keeps its initial value None. The \<^verbatim>\<open>try\<close> block never raises, the values of the
  key do not change the attribute, and a key without values yields no warning and no
  event whatever its name is.
\<close>

theorem C2_file_reference:
  "ParseFileReferenceKey_reference event_data name =
     (None,
      case (if occurs_again name ''0000'' then None else first_split_reference name) of
        None \<Rightarrow> event_data
      | Some r \<Rightarrow> setattr event_data ''file_reference'' (PyStr r)) \<and>
   getattr (file_event_data med (Key name t vs subs)) ''file_reference'' =
     Some (case (if occurs_again name ''0000'' then None else first_split_reference name) of
             None \<Rightarrow> PyNone
           | Some r \<Rightarrow> PyStr r) \<and>
   ParseFileReferenceKey med (Key name t [] subs) = (None, med)"
proof -
  let ?r = "if occurs_again name ''0000'' then None else first_split_reference name"
  have 1: "ParseFileReferenceKey_reference ed name =
     (None, case ?r of None \<Rightarrow> ed | Some r \<Rightarrow> setattr ed ''file_reference'' (PyStr r))" for ed
    unfolding ParseFileReferenceKey_reference_def file_reference_of_name_first_split
    by (cases ?r) simp_all
  have "getattr (file_event_data med (Key name t vs subs)) ''file_reference'' =
      getattr (snd (ParseFileReferenceKey_reference new_AMCacheFileEventData name))
        ''file_reference''"
    by (simp add: file_event_data_file_reference)
  also have "\<dots> = Some (case ?r of None \<Rightarrow> PyNone | Some r \<Rightarrow> PyStr r)"
    unfolding 1 by (cases ?r) (simp_all add: new_AMCacheFileEventData_def update_conv)
  finally have 2: "getattr (file_event_data med (Key name t vs subs)) ''file_reference'' =
      Some (case ?r of None \<Rightarrow> PyNone | Some r \<Rightarrow> PyStr r)" .
  from 1 [of event_data] 2 ParseFileReferenceKey_no_values [of med name t subs]
  show ?thesis by (intro conjI)
qed

theorem C2_file_reference_witness:
  "ParseFileReferenceKey_reference new_AMCacheFileEventData ''e00001234'' =
     (None, setattr new_AMCacheFileEventData ''file_reference'' (PyStr ''4660-14'')) \<and>
   ParseFileReferenceKey_reference new_AMCacheFileEventData ''1f'' =
     (None, setattr new_AMCacheFileEventData ''file_reference'' (PyStr ''31'')) \<and>
   ParseFileReferenceKey_reference new_AMCacheFileEventData ''e0000xyz'' =
     (None, new_AMCacheFileEventData)"
proof -
  have a: "\<not> occurs_again ''e00001234'' ''0000'' \<and>
      first_split_reference ''e00001234'' = Some ''4660-14''"
    by (simp add: occurs_again_def first_split_reference_def split_first_def startswith_def
        py_int16_def py_isspace_def strip_sign_def strip_hex_prefix_def hex_digit_value_def
        hex_value_def format_d_def digit_char_def)
  have b: "\<not> occurs_again ''1f'' ''0000'' \<and> first_split_reference ''1f'' = Some ''31''"
    by (simp add: occurs_again_def first_split_reference_def split_first_def startswith_def
        py_int16_def py_isspace_def strip_sign_def strip_hex_prefix_def hex_digit_value_def
        hex_value_def format_d_def digit_char_def)
  have c: "\<not> occurs_again ''e0000xyz'' ''0000'' \<and> first_split_reference ''e0000xyz'' = None"
    by (simp add: occurs_again_def first_split_reference_def split_first_def startswith_def
        py_int16_def py_isspace_def strip_sign_def strip_hex_prefix_def hex_digit_value_def
        hex_value_def format_d_def digit_char_def)
  show ?thesis
    using C2_file_reference [of new_AMCacheFileEventData "''e00001234''"]
      C2_file_reference [of new_AMCacheFileEventData "''1f''"]
      C2_file_reference [of new_AMCacheFileEventData "''e0000xyz''"]
    by (simp only: a b c if_False option.case simp_thms)
qed
lemma value_string_value_text:
  "fst (value_string med v) = Inr (value_text v)"
proof (cases "data v")
  case None
  then show ?thesis by (simp add: value_string_def value_text_def)
next
  case (Some payload)
  show ?thesis
  proof (cases "value_type v = REG_MULTI_SZ")
    case True
    then show ?thesis
      using Some
      by (cases "get_data_as_multi_string v")
         (simp_all add: value_string_def value_text_def GetValueDataAsObject_def REG_defs)
  next
    case multi: False
    show ?thesis
    proof (cases "value_type v \<in> {REG_SZ, REG_EXPAND_SZ, REG_LINK}")
      case True
      then show ?thesis
        using Some multi
        by (cases "get_data_as_string v")
           (auto simp add: value_string_def value_text_def GetValueDataAsObject_def REG_defs)
    next
      case scalar: False
      show ?thesis
      proof (cases "value_type v \<in> {REG_DWORD, REG_DWORD_BIG_ENDIAN, REG_QWORD}")
        case True
        then show ?thesis
          using Some multi scalar
          by (cases "get_data_as_integer v")
             (auto simp add: value_string_def value_text_def GetValueDataAsObject_def REG_defs)
      next
        case False
        then show ?thesis
          using Some multi scalar
          by (auto simp add: value_string_def value_text_def GetValueDataAsObject_def REG_defs)
      qed
    qed
  qed
qed

lemma GetValuesFromKey_loop_fold:
  "fst (GetValuesFromKey_loop skip vs values_dict med) =
     Inr (fold (\<lambda>v. AList.update (display_name v) (value_text v))
            (filter (\<lambda>v. py_lower (display_name v) \<notin> set skip) vs) values_dict)"
proof (induction vs arbitrary: values_dict med)
  case Nil
  show ?case by simp
next
  case (Cons v vs)
  obtain m where m: "value_string med v = (Inr (value_text v), m)"
    using value_string_value_text [of med v] by (cases "value_string med v") simp
  show ?case
    using Cons.IH m by simp
qed

lemma fold_update_distinct:
  "distinct (map fst d) \<Longrightarrow>
   distinct (map fst (fold (\<lambda>v. AList.update (display_name v) (value_text v)) vs d))"
  by (induction vs arbitrary: d) (simp_all add: distinct_update)

lemma fold_update_map_of:
  "map_of (fold (\<lambda>v. AList.update (display_name v) (value_text v)) vs d) =
     map_of d ++ map_of (rev (map (\<lambda>v. (display_name v, value_text v)) vs))"
proof (induction vs arbitrary: d)
  case Nil
  show ?case by simp
next
  case (Cons v vs)
  let ?M = "map_of (rev (map (\<lambda>v. (display_name v, value_text v)) vs))"
  have "map_of (AList.update (display_name v) (value_text v) d) ++ ?M =
      map_of d ++ ([display_name v \<mapsto> value_text v] ++ ?M)"
    by (auto simp add: update_conv' map_add_def fun_eq_iff split: option.splits)
  then show ?case
    by (simp add: Cons.IH)
qed

lemma last_per_name_subset:
  "set (last_per_name vs) \<subseteq> set vs"
  by (induction vs) auto

lemma last_per_name_names:
  "display_name ` set (last_per_name vs) = display_name ` set vs"
  by (induction vs) auto

lemma last_per_name_distinct:
  "distinct (map display_name (last_per_name vs))"
proof (induction vs)
  case Nil
  show ?case by simp
next
  case (Cons v vs)
  then show ?case
    using last_per_name_names [of vs] by auto
qed

lemma last_per_name_map_of:
  "map_of (map (\<lambda>v. (display_name v, value_text v)) (last_per_name vs)) =
     map_of (rev (map (\<lambda>v. (display_name v, value_text v)) vs))"
proof (induction vs)
  case Nil
  show ?case by simp
next
  case (Cons v vs)
  let ?f = "\<lambda>v. (display_name v, value_text v)"
  let ?M = "map_of (rev (map ?f vs))"
  have dom: "dom ?M = display_name ` set vs"
    by (simp add: dom_map_of_conv_image_fst image_image)
  show ?case
  proof (cases "display_name v \<in> set (map display_name vs)")
    case True
    then have "display_name v \<in> dom ?M" using dom by simp
    then have "[display_name v \<mapsto> value_text v] ++ ?M = ?M"
      by (auto simp add: map_add_def fun_eq_iff split: option.splits)
    then show ?thesis
      using True Cons.IH by simp
  next
    case False
    then have "display_name v \<notin> dom ?M" using dom by simp
    then have "[display_name v \<mapsto> value_text v] ++ ?M = ?M(display_name v \<mapsto> value_text v)"
      by (auto simp add: map_add_def fun_eq_iff split: option.splits)
    then show ?thesis
      using False Cons.IH by simp
  qed
qed

lemma last_per_name_filter:
  "last_per_name (filter (\<lambda>v. Q (display_name v)) vs) =
     filter (\<lambda>v. Q (display_name v)) (last_per_name vs)"
proof (induction vs)
  case Nil
  show ?case by simp
next
  case (Cons v vs)
  have "Q (display_name v) \<Longrightarrow>
      display_name v \<in> display_name ` {x \<in> set vs. Q (display_name x)} \<longleftrightarrow>
      display_name v \<in> display_name ` set vs"
    by (auto simp add: image_iff)
  then show ?case
    using Cons.IH by auto
qed

lemma last_per_name_distinct_names:
  "distinct (map display_name vs) \<Longrightarrow> last_per_name vs = vs"
  by (induction vs) auto
lemma sorted_entries:
  "sorted (map display_name ys) \<Longrightarrow> distinct (map display_name ys) \<Longrightarrow>
   sorted (map (\<lambda>v. (display_name v, value_text v)) ys)"
proof (induction ys)
  case Nil
  show ?case by simp
next
  case (Cons y ys)
  have "(display_name y, value_text y) \<le> (display_name z, value_text z)" if "z \<in> set ys" for z
  proof -
    have "display_name y \<le> display_name z" and "display_name y \<noteq> display_name z"
      using Cons.prems that by auto
    then have "display_name y < display_name z" by simp
    then show ?thesis by (simp add: less_eq_prod_def)
  qed
  then show ?case
    using Cons by auto
qed

lemma sort_entries:
  assumes "distinct (map display_name vs)"
  shows "sort (map (\<lambda>v. (display_name v, value_text v)) vs) =
     map (\<lambda>v. (display_name v, value_text v)) (sort_key display_name vs)"
proof (rule properties_for_sort)
  show "mset (map (\<lambda>v. (display_name v, value_text v)) (sort_key display_name vs)) =
      mset (map (\<lambda>v. (display_name v, value_text v)) vs)"
    by simp
  have "mset (map display_name (sort_key display_name vs)) = mset (map display_name vs)"
    by simp
  then have "distinct (map display_name (sort_key display_name vs))"
    using assms mset_eq_imp_distinct_iff by blast
  then show "sorted (map (\<lambda>v. (display_name v, value_text v)) (sort_key display_name vs))"
    by (intro sorted_entries) simp_all
qed

lemma sort_same_dictionary:
  fixes xs ys :: "(string \<times> string) list"
  assumes "distinct (map fst xs)" and "distinct (map fst ys)" and "map_of xs = map_of ys"
  shows "sort xs = sort ys"
proof -
  have "set xs = set ys"
    using assms map_of_inject_set by blast
  moreover have "distinct xs" and "distinct ys"
    using assms(1,2) by (simp_all add: distinct_map)
  ultimately have "mset xs = mset ys"
    using set_eq_iff_mset_eq_distinct by blast
  then have "mset (sort ys) = mset xs" by simp
  then show ?thesis
    by (rule properties_for_sort) simp
qed

lemma py_join_not_Nil:
  "xs \<noteq> [] \<Longrightarrow> hd xs \<noteq> [] \<Longrightarrow> py_join sep xs \<noteq> []"
proof (cases xs)
  case Nil
  assume "xs \<noteq> []"
  with Nil show ?thesis by simp
next
  case (Cons x rest)
  assume "hd xs \<noteq> []"
  with Cons show ?thesis by (cases rest) simp_all
qed

lemma shown_values_last_per_name:
  "shown_values names_to_skip (last_per_name vs) = last_per_name (shown_values names_to_skip vs)"
  unfolding shown_values_def
  using last_per_name_filter
    [of "\<lambda>n. py_lower n \<notin>
          set (map py_lower (case names_to_skip of None \<Rightarrow> [] | Some ns \<Rightarrow> ns))" vs]
  by simp

lemma summary_of_key_last_per_name:
  "summary_of_key k names_to_skip = value_summary names_to_skip (last_per_name (key_values k))"
proof -
  let ?f = "\<lambda>v. (display_name v, value_text v)"
  define L where "L = last_per_name (shown_values names_to_skip (key_values k))"
  define d where "d = fold (\<lambda>v. AList.update (display_name v) (value_text v))
      (shown_values names_to_skip (key_values k)) []"
  have fst: "fst (GetValuesFromKey no_output k names_to_skip) = Inr d"
    unfolding GetValuesFromKey_def GetValuesFromKey_loop_fold d_def shown_values_def by simp
  have "distinct (map fst d)"
    unfolding d_def by (rule fold_update_distinct) simp
  moreover have "distinct (map fst (map ?f L))"
    using last_per_name_distinct [of "shown_values names_to_skip (key_values k)"]
    by (simp add: L_def comp_def)
  moreover have "map_of d = map_of (map ?f L)"
    unfolding d_def L_def fold_update_map_of last_per_name_map_of by simp
  ultimately have "sort d = sort (map ?f L)"
    by (rule sort_same_dictionary)
  also have "\<dots> = map ?f (sort_key display_name L)"
    using last_per_name_distinct [of "shown_values names_to_skip (key_values k)"]
    unfolding L_def by (rule sort_entries)
  finally have sort: "sort d = map ?f (sort_key display_name L)" .
  have entries: "map (\<lambda>(name, v). name @ '': '' @ v) (sort d) =
      map (\<lambda>v. display_name v @ '': '' @ value_text v) (sort_key display_name L)"
    unfolding sort by simp
  have shown: "shown_values names_to_skip (last_per_name (key_values k)) = L"
    unfolding L_def by (rule shown_values_last_per_name)
  have summary: "summary_of_key k names_to_skip =
      (if sort_key display_name L = [] then None
       else Some (py_join '' ''
         (map (\<lambda>v. display_name v @ '': '' @ value_text v) (sort_key display_name L))))"
  proof (cases "sort_key display_name L = []")
    case True
    then have "sort d = []" using sort by simp
    then show ?thesis
      using fst True by (simp add: summary_of_key_def values_text_of_def)
  next
    case False
    then have "py_join '' ''
        (map (\<lambda>v. display_name v @ '': '' @ value_text v) (sort_key display_name L)) \<noteq> []"
      by (intro py_join_not_Nil) (simp_all add: hd_map)
    then have "py_join '' '' (map (\<lambda>(name, v). name @ '': '' @ v) (sort d)) \<noteq> []"
      unfolding entries .
    then show ?thesis
      using fst False unfolding summary_of_key_def values_text_of_def Let_def
      by (simp only: entries sum.case if_False fst_conv)
  qed
  have "(sort_key display_name L = []) = (L = [])"
    by (metis length_sort length_0_conv)
  then show ?thesis
    unfolding summary value_summary_def shown by simp
qed

lemma filter_same_name:
  "distinct (map display_name vs) \<Longrightarrow> v \<in> set vs \<Longrightarrow>
   filter (\<lambda>x. display_name v = display_name x) vs = [v]"
proof (induction vs)
  case Nil
  then show ?case by simp
next
  case (Cons a vs)
  show ?case
  proof (cases "v = a")
    case True
    have "filter (\<lambda>x. display_name a = display_name x) vs = []"
      using Cons.prems(1) by (auto simp add: filter_empty_conv)
    then show ?thesis using True by simp
  next
    case False
    then have "v \<in> set vs" using Cons.prems(2) by simp
    moreover have "display_name v \<noteq> display_name a"
      using Cons.prems(1) \<open>v \<in> set vs\<close> by (auto simp add: image_iff)
    ultimately show ?thesis
      using Cons by simp
  qed
qed

lemma sort_key_same_values:
  assumes "mset vs' = mset vs" and "distinct (map display_name vs)"
  shows "sort_key display_name vs' = sort_key display_name vs"
proof (rule properties_for_sort_key)
  show "mset (sort_key display_name vs) = mset vs'"
    using assms(1) by simp
  have d': "distinct (map display_name vs')"
    using assms mset_eq_imp_distinct_iff [of "map display_name vs'" "map display_name vs"]
    by simp
  have d: "distinct (map display_name (sort_key display_name vs))"
    using assms(2)
      mset_eq_imp_distinct_iff [of "map display_name (sort_key display_name vs)" "map display_name vs"]
    by simp
  show "filter (\<lambda>x. display_name v = display_name x) (sort_key display_name vs) =
      filter (\<lambda>x. display_name v = display_name x) vs'"
    if "v \<in> set (sort_key display_name vs)" for v
  proof -
    have "v \<in> set vs'"
      using that assms(1) by (metis mset_eq_setD set_sort)
    then show ?thesis
      using that filter_same_name [OF d that] filter_same_name [OF d'] by simp
  qed
  show "sorted (map display_name (sort_key display_name vs))"
    by simp
qed

lemma value_summary_same_values:
  assumes "mset vs' = mset vs"
    and "distinct (map display_name (shown_values names_to_skip vs))"
  shows "value_summary names_to_skip vs' = value_summary names_to_skip vs"
proof -
  have "mset (shown_values names_to_skip vs') = mset (shown_values names_to_skip vs)"
    using assms(1) by (simp add: shown_values_def)
  then have "sort_key display_name (shown_values names_to_skip vs') =
      sort_key display_name (shown_values names_to_skip vs)"
    and "shown_values names_to_skip vs' = [] \<longleftrightarrow> shown_values names_to_skip vs = []"
    using assms(2) by (auto intro: sort_key_same_values dest: arg_cong [where f = size])
  then show ?thesis
    by (simp add: value_summary_def)
qed
text \<open>
  C7 at a key whose unnamed value and whose value named \<^verbatim>\<open>(default)\<close> share the display
  name \<^verbatim>\<open>(default)\<close>. The dictionary of \<^verbatim>\<open>_GetValuesFromKey\<close> keeps one entry for the two
  values, the later one: the summary does not cover the other value, and the same two
  values in the other order give another summary.
\<close>

theorem C7_shared_display_name_counterexample:
  "summary_of_key (Key ''k'' 1 [text_value '''' ''a'', text_value ''(default)'' ''b''] []) None =
     Some ''(default): b'' \<and>
   summary_of_key (Key ''k'' 1 [text_value ''(default)'' ''b'', text_value '''' ''a''] []) None =
     Some ''(default): a'' \<and>
   value_summary None [text_value '''' ''a'', text_value ''(default)'' ''b''] =
     Some ''(default): a (default): b''"
proof -
  have 1: "summary_of_key (Key ''k'' 1 [text_value '''' ''a'', text_value ''(default)'' ''b''] [])
      None = Some ''(default): b''"
    by (simp add: summary_of_key_def GetValuesFromKey_def value_string_def
        GetValueDataAsObject_def display_name_def text_value_def values_text_of_def REG_defs
        no_output_def)
  have 2: "summary_of_key (Key ''k'' 1 [text_value ''(default)'' ''b'', text_value '''' ''a''] [])
      None = Some ''(default): a''"
    by (simp add: summary_of_key_def GetValuesFromKey_def value_string_def
        GetValueDataAsObject_def display_name_def text_value_def values_text_of_def REG_defs
        no_output_def)
  have 3: "value_summary None [text_value '''' ''a'', text_value ''(default)'' ''b''] =
      Some ''(default): a (default): b''"
    by (simp add: value_summary_def shown_values_def display_name_def value_text_def
        text_value_def REG_defs)
  from 1 2 3 show ?thesis by (intro conjI)
qed

text \<open>
  C7 as the code has it. The generic event of a key is always produced, and its value
  summary is the summary of section 4.2 of the values that the dictionary keeps: of the
  values with the same display name, the last one. When the display names of the shown
  values differ from each other, the summary covers every shown value and does not depend
  on the order of the values in the key.
\<close>

theorem C7_value_summary:
  "fst (ProduceDefaultWindowsRegistryEvent med k path names_to_skip) = None \<and>
   events (snd (ProduceDefaultWindowsRegistryEvent med k path names_to_skip)) =
     events med @
     [(DateTimeValuesEvent (Filetime (get_last_written_time_as_integer k)) TIME_DESCRIPTION_WRITTEN,
       WindowsRegistryEventData path
         (value_summary names_to_skip (last_per_name (key_values k))))] \<and>
   (distinct (map display_name (shown_values names_to_skip (key_values k))) \<longrightarrow>
      summary_of_key k names_to_skip = value_summary names_to_skip (key_values k) \<and>
      (\<forall>k'. mset (key_values k') = mset (key_values k) \<longrightarrow>
         summary_of_key k' names_to_skip = summary_of_key k names_to_skip))"
proof -
  have 1: "fst (ProduceDefaultWindowsRegistryEvent med k path names_to_skip) = None"
    using ProduceDefaultWindowsRegistryEvent_result [of med k path names_to_skip] by simp
  have 2: "events (snd (ProduceDefaultWindowsRegistryEvent med k path names_to_skip)) =
     events med @
     [(DateTimeValuesEvent (Filetime (get_last_written_time_as_integer k)) TIME_DESCRIPTION_WRITTEN,
       WindowsRegistryEventData path
         (value_summary names_to_skip (last_per_name (key_values k))))]"
    using ProduceDefaultWindowsRegistryEvent_result [of med k path names_to_skip]
    by (simp add: summary_of_key_last_per_name)
  have 3: "summary_of_key k names_to_skip = value_summary names_to_skip (key_values k) \<and>
      (\<forall>k'. mset (key_values k') = mset (key_values k) \<longrightarrow>
         summary_of_key k' names_to_skip = summary_of_key k names_to_skip)"
    if d: "distinct (map display_name (shown_values names_to_skip (key_values k)))"
  proof -
    have same: "value_summary names_to_skip (last_per_name vs) = value_summary names_to_skip vs"
      if "distinct (map display_name (shown_values names_to_skip vs))" for vs
    proof -
      have "shown_values names_to_skip (last_per_name vs) = shown_values names_to_skip vs"
        using that by (simp add: shown_values_last_per_name last_per_name_distinct_names)
      then show ?thesis by (simp add: value_summary_def)
    qed
    have a: "summary_of_key k names_to_skip = value_summary names_to_skip (key_values k)"
      using same [OF d] by (simp add: summary_of_key_last_per_name)
    have b: "summary_of_key k' names_to_skip = summary_of_key k names_to_skip"
      if m: "mset (key_values k') = mset (key_values k)" for k'
    proof -
      have "mset (map display_name (shown_values names_to_skip (key_values k'))) =
          mset (map display_name (shown_values names_to_skip (key_values k)))"
        using m by (simp add: shown_values_def)
      then have d': "distinct (map display_name (shown_values names_to_skip (key_values k')))"
        using d mset_eq_imp_distinct_iff by blast
      have "summary_of_key k' names_to_skip = value_summary names_to_skip (key_values k')"
        using same [OF d'] by (simp add: summary_of_key_last_per_name)
      also have "\<dots> = value_summary names_to_skip (key_values k)"
        using m d by (rule value_summary_same_values)
      finally show ?thesis using a by simp
    qed
    from a b show ?thesis by blast
  qed
  from 1 2 3 show ?thesis by blast
qed

theorem C7_value_summary_witness:
  "distinct (map display_name (shown_values (Some [''C''])
     [text_value ''b'' ''x'', text_value ''c'' ''y'', text_value '''' ''d'',
      integer_value ''a'' REG_DWORD [CHR 0x07, CHR 0x00, CHR 0x00, CHR 0x00] 7])) \<and>
   summary_of_key (Key ''k'' 1
     [text_value ''b'' ''x'', text_value ''c'' ''y'', text_value '''' ''d'',
      integer_value ''a'' REG_DWORD [CHR 0x07, CHR 0x00, CHR 0x00, CHR 0x00] 7] [])
     (Some [''C'']) = Some ''(default): d a: 7 b: x'' \<and>
   summary_of_key (Key ''k'' 1
     [integer_value ''a'' REG_DWORD [CHR 0x07, CHR 0x00, CHR 0x00, CHR 0x00] 7,
      text_value '''' ''d'', text_value ''c'' ''y'', text_value ''b'' ''x''] [])
     (Some [''C'']) = Some ''(default): d a: 7 b: x''"
proof -
  let ?vs = "[text_value ''b'' ''x'', text_value ''c'' ''y'', text_value '''' ''d'',
      integer_value ''a'' REG_DWORD [CHR 0x07, CHR 0x00, CHR 0x00, CHR 0x00] 7]"
  let ?vs' = "[integer_value ''a'' REG_DWORD [CHR 0x07, CHR 0x00, CHR 0x00, CHR 0x00] 7,
      text_value '''' ''d'', text_value ''c'' ''y'', text_value ''b'' ''x'']"
  have lower: "py_lower ''C'' = ''c'' \<and> py_lower ''c'' = ''c'' \<and> py_lower ''b'' = ''b'' \<and>
      py_lower ''a'' = ''a'' \<and> py_lower ''(default)'' = ''(default)''"
    by (simp add: py_lower_def py_lower_char_def upper_letters_def lower_letters_def)
  have shown: "shown_values (Some [''C'']) ?vs =
      [text_value ''b'' ''x'', text_value '''' ''d'',
       integer_value ''a'' REG_DWORD [CHR 0x07, CHR 0x00, CHR 0x00, CHR 0x00] 7]"
    using lower by (simp add: shown_values_def display_name_def text_value_def integer_value_def)
  have d: "distinct (map display_name (shown_values (Some [''C'']) ?vs))"
    unfolding shown by (simp add: display_name_def text_value_def integer_value_def)
  have s: "value_summary (Some [''C'']) ?vs = Some ''(default): d a: 7 b: x''"
    unfolding value_summary_def shown
    by (simp add: display_name_def value_text_def text_value_def integer_value_def REG_defs
        format_d_def digit_char_def)
  have m: "mset (key_values (Key ''k'' 1 ?vs' [])) = mset (key_values (Key ''k'' 1 ?vs []))"
    by (simp add: add.commute add.left_commute)
  show ?thesis
    using C7_value_summary [of no_output "Key ''k'' 1 ?vs []" "''p''" "Some [''C'']"] d s m
    by (simp only: regf_key.sel simp_thms)
qed

end
